theory Spec2Isabelle
  imports Complex_Main "HOL-Library.AList"
begin

section \<open>JavaScript values\<close>

text \<open>
  The workflow designer (\<^verbatim>\<open>workflow/index.vue\<close>) is plain JavaScript: the node list, the
  edge list, the selection and the clipboard are dynamically typed values, and a file or
  the local-storage slot can put any JSON value into them. The embedding therefore works
  on a datatype of JavaScript values. A finite number is a real (every double is one,
  and the two zeros are one number), \<open>NaN\<close> and the two infinities are values of their
  own. What the host computes on numbers is not modelled: the one handler that adds
  takes the addition as a parameter. An object is the list of its own properties in
  insertion order.
\<close>

datatype jsval =
    JUndefined
  | JNull
  | JBool bool
  | JNum real
  | JNaN
  | JInf bool
  | JStr string
  | JArr "jsval list"
  | JObj "(string \<times> jsval) list"

datatype js_error = TypeError | SyntaxError

text \<open>Truthiness, as \<^verbatim>\<open>if (v)\<close>, \<^verbatim>\<open>a && b\<close> and \<^verbatim>\<open>a || b\<close> test it.\<close>

fun truthy :: "jsval \<Rightarrow> bool" where
  "truthy JUndefined = False"
| "truthy JNull = False"
| "truthy (JBool b) = b"
| "truthy (JNum n) = (n \<noteq> 0)"
| "truthy JNaN = False"
| "truthy (JInf b) = True"
| "truthy (JStr s) = (s \<noteq> [])"
| "truthy (JArr xs) = True"
| "truthy (JObj fs) = True"

definition js_or :: "jsval \<Rightarrow> jsval \<Rightarrow> jsval" where
  "js_or a b = (if truthy a then a else b)"

text \<open>
  Reading a property \<^verbatim>\<open>v.k\<close> by name. It throws on \<^verbatim>\<open>undefined\<close> and \<^verbatim>\<open>null\<close>; a
  missing property reads as \<^verbatim>\<open>undefined\<close>. The names the handlers read this way
  (\<^verbatim>\<open>nodes\<close>, \<^verbatim>\<open>edges\<close>, \<^verbatim>\<open>id\<close>, \<^verbatim>\<open>type\<close>, \<^verbatim>\<open>source\<close>, \<^verbatim>\<open>target\<close>, \<^verbatim>\<open>label\<close>,
  \<^verbatim>\<open>name\<close>, \<^verbatim>\<open>class\<close>, \<^verbatim>\<open>data\<close>, \<^verbatim>\<open>position\<close>, \<^verbatim>\<open>x\<close>, \<^verbatim>\<open>y\<close> and the fields of the
  forms) are defined by no prototype, so a primitive or an array has none of them.
\<close>

fun get_prop :: "jsval \<Rightarrow> string \<Rightarrow> js_error + jsval" where
  "get_prop JUndefined k = Inl TypeError"
| "get_prop JNull k = Inl TypeError"
| "get_prop (JObj fs) k = Inr (case map_of fs k of Some v \<Rightarrow> v | None \<Rightarrow> JUndefined)"
| "get_prop v k = Inr JUndefined"

text \<open>
  \<^verbatim>\<open>a === b\<close>. Primitives compare by value and \<open>NaN\<close> equals nothing. Objects compare by
  reference in JavaScript; the model compares them structurally, which is the same
  wherever the operands are primitives (identifiers and kinds are strings,
  \<^verbatim>\<open>types.ts\<close>).
\<close>

definition strict_eq :: "jsval \<Rightarrow> jsval \<Rightarrow> bool" where
  "strict_eq a b = (a = b \<and> a \<noteq> JNaN)"

text \<open>Decimal digits of a natural number, as a template literal prints the
  millisecond count of \<^verbatim>\<open>Date.now()\<close> or an array index.\<close>

fun dec :: "nat \<Rightarrow> string" where
  "dec n = (if n < 10 then [''0123456789'' ! n]
            else dec (n div 10) @ [''0123456789'' ! (n mod 10)])"

declare dec.simps [simp del]

text \<open>
  The own enumerable properties that \<^verbatim>\<open>{...v}\<close> copies, and the object literal
  \<^verbatim>\<open>{...a, ...b}\<close>: a key that exists keeps its place and takes the new value, a new key
  goes to the end. (JavaScript lists integer-like keys first; the objects of the program
  have none.)
\<close>

fun is_str :: "jsval \<Rightarrow> bool" where
  "is_str (JStr s) = True"
| "is_str v = False"

fun spread :: "jsval \<Rightarrow> (string \<times> jsval) list" where
  "spread (JObj fs) = fs"
| "spread (JArr xs) = zip (map dec [0..<length xs]) xs"
| "spread (JStr s) = zip (map dec [0..<length s]) (map (\<lambda>c. JStr [c]) s)"
| "spread v = []"

definition obj_assign :: "(string \<times> jsval) list \<Rightarrow> (string \<times> jsval) list \<Rightarrow> (string \<times> jsval) list" where
  "obj_assign a b = fold (\<lambda>(k, v). AList.update k v) b a"

text \<open>
  The deep copy \<^verbatim>\<open>JSON.parse(JSON.stringify(v))\<close>. \<^verbatim>\<open>JSON.stringify(undefined)\<close> is
  \<^verbatim>\<open>undefined\<close>, which \<^verbatim>\<open>JSON.parse\<close> rejects with a SyntaxError. Inside a value, a
  property whose value is \<^verbatim>\<open>undefined\<close> is left out, an array element \<^verbatim>\<open>undefined\<close>
  becomes \<^verbatim>\<open>null\<close>, and \<open>NaN\<close> and the infinities become \<^verbatim>\<open>null\<close>.
\<close>

fun jclone :: "jsval \<Rightarrow> jsval"
  and jclone_elems :: "jsval list \<Rightarrow> jsval list"
  and jclone_props :: "(string \<times> jsval) list \<Rightarrow> (string \<times> jsval) list" where
  "jclone JUndefined = JNull"
| "jclone JNull = JNull"
| "jclone (JBool b) = JBool b"
| "jclone (JNum n) = JNum n"
| "jclone JNaN = JNull"
| "jclone (JInf b) = JNull"
| "jclone (JStr s) = JStr s"
| "jclone (JArr xs) = JArr (jclone_elems xs)"
| "jclone (JObj fs) = JObj (jclone_props fs)"
| "jclone_elems [] = []"
| "jclone_elems (x # xs) = jclone x # jclone_elems xs"
| "jclone_props [] = []"
| "jclone_props (kv # fs) =
     (if snd kv = JUndefined then jclone_props fs
      else (fst kv, jclone (snd kv)) # jclone_props fs)"

definition json_clone :: "jsval \<Rightarrow> js_error + jsval" where
  "json_clone v = (if v = JUndefined then Inl SyntaxError else Inr (jclone v))"

text \<open>\<^verbatim>\<open>xs.filter(p)\<close> with a callback that may throw.\<close>

fun filter_js :: "(jsval \<Rightarrow> js_error + bool) \<Rightarrow> jsval list \<Rightarrow> js_error + jsval list" where
  "filter_js p [] = Inr []"
| "filter_js p (x # xs) =
     (case p x of
        Inl e \<Rightarrow> Inl e
      | Inr b \<Rightarrow> (case filter_js p xs of
                   Inl e \<Rightarrow> Inl e
                 | Inr ys \<Rightarrow> Inr (if b then x # ys else ys)))"

text \<open>Sequencing of computations that may throw, \<^verbatim>\<open>xs.map(f)\<close>, and \<^verbatim>\<open>xs.some(p)\<close>, which
  stops at the first element that satisfies \<open>p\<close>.\<close>

fun bind_js :: "js_error + 'a \<Rightarrow> ('a \<Rightarrow> js_error + 'b) \<Rightarrow> js_error + 'b" where
  "bind_js (Inl e) f = Inl e"
| "bind_js (Inr x) f = f x"

fun map_js :: "(jsval \<Rightarrow> js_error + 'b) \<Rightarrow> jsval list \<Rightarrow> js_error + 'b list" where
  "map_js f [] = Inr []"
| "map_js f (x # xs) =
     bind_js (f x) (\<lambda>y. bind_js (map_js f xs) (\<lambda>ys. Inr (y # ys)))"

fun some_js :: "(jsval \<Rightarrow> js_error + bool) \<Rightarrow> jsval list \<Rightarrow> js_error + bool" where
  "some_js p [] = Inr False"
| "some_js p (x # xs) = bind_js (p x) (\<lambda>b. if b then Inr True else some_js p xs)"

text \<open>Optional chaining \<^verbatim>\<open>v?.k\<close>; on an object it is the plain reading of the property.\<close>

definition opt_prop :: "jsval \<Rightarrow> string \<Rightarrow> jsval" where
  "opt_prop v k = (case get_prop v k of Inl e \<Rightarrow> JUndefined | Inr x \<Rightarrow> x)"

text \<open>\<^verbatim>\<open>xs.slice(0, e)\<close>; a negative end counts from the back.\<close>

definition js_slice0 :: "'a list \<Rightarrow> int \<Rightarrow> 'a list" where
  "js_slice0 xs e =
     (let n = int (length xs);
          k = (if e < 0 then max (n + e) 0 else min e n)
      in take (nat k) xs)"

text \<open>\<^verbatim>\<open>xs[i]\<close>; out of range it is \<^verbatim>\<open>undefined\<close>, here \<open>None\<close>.\<close>

definition js_index :: "'a list \<Rightarrow> int \<Rightarrow> 'a option" where
  "js_index xs i = (if 0 \<le> i \<and> i < int (length xs) then Some (xs ! nat i) else None)"

section \<open>The editor state\<close>

text \<open>
  The graph lives in two places. The refs \<^verbatim>\<open>nodes\<close> and \<^verbatim>\<open>edges\<close> of \<^verbatim>\<open>index.vue\<close> are
  what \<open>saveToHistory\<close>, save and export read and what undo, redo, import, load,
  template and clear assign. The store of the VueFlow component, in the fields
  \<open>store_nodes\<close> and \<open>store_edges\<close>, is what \<^verbatim>\<open>getNodes\<close> and \<^verbatim>\<open>getEdges\<close> read and
  what \<^verbatim>\<open>setNodes\<close>, \<^verbatim>\<open>setEdges\<close> and \<^verbatim>\<open>addNodes\<close> write: the validator, paste, drop and
  the two configuration panels work on it. The component is bound one way
  (\<^verbatim>\<open>:nodes="nodes"\<close>, \<^verbatim>\<open>:edges="edges"\<close>): a list assigned to a ref reaches the store, a
  write to the store does not reach the ref. The store always holds two arrays.
  \<^verbatim>\<open>ElMessage\<close> notices are appended to a log; the message texts are Chinese literals,
  named here by what they say.
\<close>

record snapshot =
  snap_nodes :: jsval
  snap_edges :: jsval

datatype level = LSuccess | LWarning | LError

datatype message =
    UndoDone | NothingToUndo | RedoDone | NothingToRedo
  | NodeCopied | NodePasted
  | ImportDone | InvalidFormat | ParseFailed
  | LoadDone | LoadFailed | NoSavedData
  | NodeDeleted | PanelSaved

record editor =
  nodes :: jsval
  edges :: jsval
  store_nodes :: "jsval list"
  store_edges :: "jsval list"
  history :: "snapshot list"
  historyIndex :: int
  updateState :: string
  selectedNode :: jsval
  selectedEdge :: jsval
  clipboard :: jsval
  notices :: "(level \<times> message) list"

definition maxHistory :: int where
  "maxHistory = 50"

definition notify :: "level \<Rightarrow> message \<Rightarrow> editor \<Rightarrow> editor" where
  "notify l m st = st\<lparr>notices := notices st @ [(l, m)]\<rparr>"

text \<open>
  A handler either returns or lets an exception escape; in both cases the state is what
  the assignments made before that point left.
\<close>

datatype outcome = Returned editor | Thrown js_error editor

fun state_of :: "outcome \<Rightarrow> editor" where
  "state_of (Returned st) = st"
| "state_of (Thrown e st) = st"

section \<open>History stack\<close>

definition saveToHistory :: "editor \<Rightarrow> outcome" where
  "saveToHistory st =
     (case json_clone (nodes st) of
        Inl e \<Rightarrow> Thrown e st
      | Inr n \<Rightarrow>
     (case json_clone (edges st) of
        Inl e \<Rightarrow> Thrown e st
      | Inr ed \<Rightarrow>
          let state = \<lparr>snap_nodes = n, snap_edges = ed\<rparr>;
              h1 = (if historyIndex st < int (length (history st)) - 1
                    then js_slice0 (history st) (historyIndex st + 1)
                    else history st);
              h2 = h1 @ [state]
          in if int (length h2) > maxHistory
             then Returned (st\<lparr>history := tl h2\<rparr>)
             else Returned (st\<lparr>history := h2, historyIndex := historyIndex st + 1\<rparr>)))"

text \<open>
  Restoring the snapshot at the current index: \<^verbatim>\<open>history.value[historyIndex.value]\<close>,
  then the two deep copies into the refs, one after the other.
\<close>

definition restore :: "message \<Rightarrow> editor \<Rightarrow> outcome" where
  "restore m st =
     (case js_index (history st) (historyIndex st) of
        None \<Rightarrow> Thrown TypeError st
      | Some state \<Rightarrow>
     (case json_clone (snap_nodes state) of
        Inl e \<Rightarrow> Thrown e st
      | Inr n \<Rightarrow>
     (case json_clone (snap_edges state) of
        Inl e \<Rightarrow> Thrown e (st\<lparr>nodes := n\<rparr>)
      | Inr ed \<Rightarrow> Returned (notify LSuccess m (st\<lparr>nodes := n, edges := ed\<rparr>)))))"

definition undo :: "editor \<Rightarrow> outcome" where
  "undo st =
     (if historyIndex st > 0
      then restore UndoDone (st\<lparr>historyIndex := historyIndex st - 1\<rparr>)
      else Returned (notify LWarning NothingToUndo st))"

definition redo :: "editor \<Rightarrow> outcome" where
  "redo st =
     (if historyIndex st < int (length (history st)) - 1
      then restore RedoDone (st\<lparr>historyIndex := historyIndex st + 1\<rparr>)
      else Returned (notify LWarning NothingToRedo st))"

text \<open>
  A session is a sequence of calls. \<open>SetGraph\<close> stands for any assignment of the refs
  between two calls; an exception ends the handler, not the session. A write to the
  store changes neither the history nor the index.
\<close>

datatype call = SetGraph jsval jsval | Record | Undo | Redo

fun step :: "call \<Rightarrow> editor \<Rightarrow> editor" where
  "step (SetGraph n e) st = st\<lparr>nodes := n, edges := e\<rparr>"
| "step Record st = state_of (saveToHistory st)"
| "step Undo st = state_of (undo st)"
| "step Redo st = state_of (redo st)"

definition run :: "call list \<Rightarrow> editor \<Rightarrow> editor" where
  "run cs st = fold step cs st"

definition index_invariant :: "editor \<Rightarrow> bool" where
  "index_invariant st =
     ((0 \<le> historyIndex st \<and> historyIndex st < int (length (history st)))
      \<or> (length (history st) = 0 \<and> historyIndex st = - 1))"

section \<open>The VueFlow store\<close>

text \<open>
  The store is the library's; the model keeps of a stored element the properties it was
  given and leaves out the rendering state the store adds to it. \<^verbatim>\<open>setNodes\<close> and
  \<^verbatim>\<open>setEdges\<close> put a list in place of the stored one; the lists the handlers pass are
  made of stored elements and of the element a panel has saved.
\<close>

definition node_ids :: "jsval list \<Rightarrow> jsval list" where
  "node_ids ns = map (\<lambda>n. opt_prop n ''id'') ns"

definition setNodes :: "jsval list \<Rightarrow> editor \<Rightarrow> editor" where
  "setNodes ns st = st\<lparr>store_nodes := ns\<rparr>"

definition setEdges :: "jsval list \<Rightarrow> editor \<Rightarrow> editor" where
  "setEdges es st = st\<lparr>store_edges := es\<rparr>"

text \<open>A node enters the store with a \<^verbatim>\<open>data\<close> object: one that has none gets an empty
  one.\<close>

definition store_node :: "jsval \<Rightarrow> jsval" where
  "store_node n =
     (case n of
        JObj fs \<Rightarrow> (if opt_prop n ''data'' = JUndefined
                    then JObj (AList.update ''data'' (JObj []) fs) else n)
      | _ \<Rightarrow> n)"

text \<open>
  \<^verbatim>\<open>addNodes(n)\<close>: where the store holds a node of the same identifier, that node takes
  the properties of \<open>n\<close> and nothing is added; otherwise \<open>n\<close> goes to the end.
\<close>

fun overwrite_node :: "jsval \<Rightarrow> jsval list \<Rightarrow> jsval list" where
  "overwrite_node n [] = []"
| "overwrite_node n (m # ms) =
     (if opt_prop m ''id'' = opt_prop n ''id''
      then JObj (obj_assign (spread m) (spread n)) # ms
      else m # overwrite_node n ms)"

definition addNodes :: "jsval \<Rightarrow> editor \<Rightarrow> editor" where
  "addNodes n st =
     st\<lparr>store_nodes :=
          (if opt_prop n ''id'' \<in> set (node_ids (store_nodes st))
           then overwrite_node n (store_nodes st)
           else store_nodes st @ [store_node n])\<rparr>"

text \<open>
  What the binding does once a handler has assigned the refs: an array in \<^verbatim>\<open>nodes\<close>
  replaces the stored nodes, each entering as \<open>store_node\<close> says; an array in \<^verbatim>\<open>edges\<close> replaces the stored edges, without the edges whose source or
  target is not the identifier of a stored node. A ref that holds no array leaves its
  part of the store as it is.
\<close>

definition sync :: "editor \<Rightarrow> editor" where
  "sync st =
     (let ns = (case nodes st of JArr xs \<Rightarrow> map store_node xs | _ \<Rightarrow> store_nodes st);
          es = (case edges st of
                  JArr xs \<Rightarrow> filter (\<lambda>e. opt_prop e ''source'' \<in> set (node_ids ns) \<and>
                                          opt_prop e ''target'' \<in> set (node_ids ns)) xs
                | _ \<Rightarrow> store_edges st)
      in st\<lparr>store_nodes := ns, store_edges := es\<rparr>)"

section \<open>Clipboard\<close>

definition handleCopy :: "editor \<Rightarrow> outcome" where
  "handleCopy st =
     (case get_prop (selectedNode st) ''id'' of
        Inl e \<Rightarrow> Thrown e st
      | Inr i \<Rightarrow>
          if truthy i
          then (case json_clone (selectedNode st) of
                  Inl e \<Rightarrow> Thrown e st
                | Inr c \<Rightarrow> Returned (notify LSuccess NodeCopied (st\<lparr>clipboard := c\<rparr>)))
          else Returned st)"

fun and_then :: "outcome \<Rightarrow> (editor \<Rightarrow> outcome) \<Rightarrow> outcome" where
  "and_then (Returned st) f = f st"
| "and_then (Thrown e st) f = Thrown e st"

text \<open>\<open>now\<close> is what \<^verbatim>\<open>Date.now()\<close> returns at the call, and \<open>add a b\<close> is what the
  host computes for \<^verbatim>\<open>a + b\<close>.\<close>

definition pasted_node :: "(jsval \<Rightarrow> jsval \<Rightarrow> jsval) \<Rightarrow> nat \<Rightarrow> jsval \<Rightarrow> js_error + jsval" where
  "pasted_node add now clip =
     bind_js (get_prop clip ''position'') (\<lambda>p.
     bind_js (get_prop p ''x'') (\<lambda>x.
     bind_js (get_prop p ''y'') (\<lambda>y.
       Inr (JObj (obj_assign (spread clip)
              [(''id'', JStr (''node-'' @ dec now)),
               (''position'', JObj [(''x'', add x (JNum 50)), (''y'', add y (JNum 50))])])))))"

definition handlePaste :: "(jsval \<Rightarrow> jsval \<Rightarrow> jsval) \<Rightarrow> nat \<Rightarrow> editor \<Rightarrow> outcome" where
  "handlePaste add now st =
     (if truthy (clipboard st)
      then (case pasted_node add now (clipboard st) of
              Inl e \<Rightarrow> Thrown e st
            | Inr newNode \<Rightarrow>
                and_then (saveToHistory
                            ((addNodes newNode st)\<lparr>selectedNode := newNode, updateState := ''node''\<rparr>))
                  (\<lambda>s. Returned (notify LSuccess NodePasted s)))
      else Returned st)"

section \<open>Palette\<close>

text \<open>
  The four Chinese string literals of \<^verbatim>\<open>onDragStart\<close>, as their UTF-8 bytes: the names
  of the start and the end entry, and the defaults of a task's assignee and of an
  approval's approver.
\<close>

definition lit_start :: string where
  "lit_start = [CHR 0xE5, CHR 0xBC, CHR 0x80, CHR 0xE5, CHR 0xA7, CHR 0x8B]"

definition lit_end :: string where
  "lit_end = [CHR 0xE7, CHR 0xBB, CHR 0x93, CHR 0xE6, CHR 0x9D, CHR 0x9F]"

definition lit_unassigned :: string where
  "lit_unassigned = [CHR 0xE6, CHR 0x9C, CHR 0xAA, CHR 0xE6, CHR 0x8C, CHR 0x87, CHR 0xE5, CHR 0xAE, CHR 0x9A]"

definition lit_pending :: string where
  "lit_pending = [CHR 0xE5, CHR 0xBE, CHR 0x85, CHR 0xE6, CHR 0x8C, CHR 0x87, CHR 0xE5, CHR 0xAE, CHR 0x9A]"

text \<open>
  The descriptor \<^verbatim>\<open>onDragStart\<close> stores for the entry \<open>item\<close> at time \<open>now\<close> with the
  pointer at \<open>(cx, cy)\<close>; \<^verbatim>\<open>onDrop\<close> adds it to the graph with a new position.
\<close>

definition onDragStart :: "nat \<Rightarrow> jsval \<Rightarrow> real \<Rightarrow> real \<Rightarrow> js_error + jsval" where
  "onDragStart now item cx cy =
     (if is_str item
      then Inr (JObj
             [(''id'', JStr (''node-'' @ dec now)),
              (''data'', JObj [(''label'', item)]),
              (''type'', JStr (if strict_eq item (JStr lit_start) then ''input''
                              else if strict_eq item (JStr lit_end) then ''output''
                              else ''custom'')),
              (''position'', JObj [(''x'', JNum cx), (''y'', JNum cy)]),
              (''class'', JStr (if strict_eq item (JStr lit_start) then ''round-start''
                               else if strict_eq item (JStr lit_end) then ''round-stop''
                               else ''light''))])
      else
        bind_js (get_prop item ''label'') (\<lambda>label.
        bind_js (get_prop item ''name'') (\<lambda>name.
        bind_js (get_prop item ''type'') (\<lambda>type.
        bind_js (get_prop item ''class'') (\<lambda>cls.
          let only = (\<lambda>kind v. if strict_eq type (JStr kind) then v else JUndefined) in
          Inr (JObj
             [(''id'', JStr (''node-'' @ dec now)),
              (''data'', JObj
                 [(''label'', js_or label name),
                  (''assignee'', only ''task'' (JStr lit_unassigned)),
                  (''priority'', only ''task'' (JStr ''medium'')),
                  (''approver'', only ''approval'' (JStr lit_pending)),
                  (''approvalType'', only ''approval'' (JStr ''single'')),
                  (''notifyType'', only ''notification'' (JStr ''email'')),
                  (''recipients'', only ''notification'' (JStr [])),
                  (''delay'', only ''timer'' (JNum 0)),
                  (''condition'', only ''condition'' (JStr [])),
                  (''branchCount'', only ''parallel'' (JNum 2))]),
              (''type'', js_or type (JStr ''custom'')),
              (''position'', JObj [(''x'', JNum cx), (''y'', JNum cy)]),
              (''class'', js_or cls (JStr ''light''))]))))))"

section \<open>Import and local load\<close>

text \<open>
  \<^verbatim>\<open>JSON.parse\<close> belongs to the host, so both handlers take it as the parameter
  \<open>parse\<close>. \<open>handleFileChange\<close> is the \<^verbatim>\<open>onload\<close> callback on the text of the chosen
  file (\<open>None\<close>: no file was chosen); the \<^verbatim>\<open>try\<close> block catches every exception.
\<close>

definition handleFileChange :: "(string \<Rightarrow> js_error + jsval) \<Rightarrow> string option \<Rightarrow> editor \<Rightarrow> editor" where
  "handleFileChange parse file st =
     (case file of
        None \<Rightarrow> st
      | Some text \<Rightarrow>
     (case parse text of
        Inl e \<Rightarrow> notify LError ParseFailed st
      | Inr data \<Rightarrow>
     (case get_prop data ''nodes'' of
        Inl e \<Rightarrow> notify LError ParseFailed st
      | Inr n \<Rightarrow>
          if \<not> truthy n then notify LError InvalidFormat st
          else
     (case get_prop data ''edges'' of
        Inl e \<Rightarrow> notify LError ParseFailed st
      | Inr ed \<Rightarrow>
          if \<not> truthy ed then notify LError InvalidFormat st
          else
     (case saveToHistory (st\<lparr>nodes := n, edges := ed\<rparr>) of
        Thrown e s \<Rightarrow> notify LError ParseFailed s
      | Returned s \<Rightarrow> notify LSuccess ImportDone s)))))"

text \<open>\<open>savedData\<close> is what \<^verbatim>\<open>localStorage.getItem("workflowData")\<close> returns: \<open>None\<close> for
  \<^verbatim>\<open>null\<close>, the stored text otherwise.\<close>

definition handleLoad :: "(string \<Rightarrow> js_error + jsval) \<Rightarrow> string option \<Rightarrow> editor \<Rightarrow> editor" where
  "handleLoad parse savedData st =
     (case savedData of
        None \<Rightarrow> notify LWarning NoSavedData st
      | Some text \<Rightarrow>
          if text = [] then notify LWarning NoSavedData st
          else
     (case parse text of
        Inl e \<Rightarrow> notify LError LoadFailed st
      | Inr workflowData \<Rightarrow>
     (case get_prop workflowData ''nodes'' of
        Inl e \<Rightarrow> notify LError LoadFailed st
      | Inr n \<Rightarrow>
     (case get_prop workflowData ''edges'' of
        Inl e \<Rightarrow> notify LError LoadFailed (st\<lparr>nodes := n\<rparr>)
      | Inr ed \<Rightarrow>
     (case saveToHistory (st\<lparr>nodes := n, edges := ed\<rparr>) of
        Thrown e s \<Rightarrow> notify LError LoadFailed s
      | Returned s \<Rightarrow> notify LSuccess LoadDone s)))))"

section \<open>Validator\<close>

text \<open>
  The entries of \<^verbatim>\<open>errors\<close> and \<^verbatim>\<open>warnings\<close>, one constructor for each message text.
  The arguments are the values the text interpolates: the name of the edge, and for
  the orphans their number and the labels that the text joins with commas.
\<close>

datatype finding =
    NoNodes | NoStart | ManyStarts | NoEnd | ManyEnds
  | SourceMissing jsval | TargetMissing jsval
  | Orphans nat "jsval list"

datatype verdict =
    Failed "finding list" "finding list"
  | PassedWithWarnings "finding list"
  | Passed

definition has_type :: "string \<Rightarrow> jsval \<Rightarrow> js_error + bool" where
  "has_type t n = bind_js (get_prop n ''type'') (\<lambda>v. Inr (strict_eq v (JStr t)))"

text \<open>\<^verbatim>\<open>edge.label || edge.id\<close>.\<close>

definition edge_name :: "jsval \<Rightarrow> js_error + jsval" where
  "edge_name e =
     bind_js (get_prop e ''label'') (\<lambda>l.
       if truthy l then Inr l else get_prop e ''id'')"

definition edge_findings :: "jsval list \<Rightarrow> jsval \<Rightarrow> js_error + finding list" where
  "edge_findings nodeIds e =
     bind_js (get_prop e ''source'') (\<lambda>s.
     bind_js (if s \<in> set nodeIds then Inr []
              else bind_js (edge_name e) (\<lambda>nm. Inr [SourceMissing nm])) (\<lambda>es1.
     bind_js (get_prop e ''target'') (\<lambda>t.
     bind_js (if t \<in> set nodeIds then Inr []
              else bind_js (edge_name e) (\<lambda>nm. Inr [TargetMissing nm])) (\<lambda>es2.
       Inr (es1 @ es2)))))"

definition touches :: "jsval \<Rightarrow> jsval \<Rightarrow> js_error + bool" where
  "touches node e =
     bind_js (get_prop e ''source'') (\<lambda>s.
     bind_js (get_prop node ''id'') (\<lambda>i.
       if strict_eq s i then Inr True
       else bind_js (get_prop e ''target'') (\<lambda>t.
            bind_js (get_prop node ''id'') (\<lambda>j. Inr (strict_eq t j)))))"

definition is_orphan :: "jsval list \<Rightarrow> jsval \<Rightarrow> js_error + bool" where
  "is_orphan allEdges node = bind_js (some_js (touches node) allEdges) (\<lambda>b. Inr (\<not> b))"

definition handleValidate :: "editor \<Rightarrow> js_error + verdict" where
  "handleValidate st =
     (let allNodes = store_nodes st; allEdges = store_edges st in
     bind_js (filter_js (has_type ''input'') allNodes) (\<lambda>startNodes.
     bind_js (filter_js (has_type ''output'') allNodes) (\<lambda>endNodes.
     bind_js (map_js (\<lambda>n. get_prop n ''id'') allNodes) (\<lambda>nodeIds.
     bind_js (map_js (edge_findings nodeIds) allEdges) (\<lambda>edgeErrors.
     bind_js (filter_js (is_orphan allEdges) allNodes) (\<lambda>orphanNodes.
     bind_js (map_js (\<lambda>n. bind_js (get_prop n ''data'') (\<lambda>d. get_prop d ''label'')) orphanNodes) (\<lambda>labels.
       let errors =
             (if allNodes = [] then [NoNodes] else []) @
             (if startNodes = [] then [NoStart] else []) @
             (if endNodes = [] then [NoEnd] else []) @
             concat edgeErrors;
           warnings =
             (if length startNodes > 1 then [ManyStarts] else []) @
             (if length endNodes > 1 then [ManyEnds] else []) @
             (if orphanNodes \<noteq> [] then [Orphans (length orphanNodes) labels] else [])
       in Inr (if errors \<noteq> [] then Failed errors warnings
               else if warnings \<noteq> [] then PassedWithWarnings warnings
               else Passed))))))))"

section \<open>Configuration panels\<close>

definition handleClosePanel :: "editor \<Rightarrow> editor" where
  "handleClosePanel st = st\<lparr>updateState := [], selectedNode := JObj [], selectedEdge := JObj []\<rparr>"

text \<open>The callback \<^verbatim>\<open>(n) => n.id !== selected.id\<close>.\<close>

definition id_differs :: "jsval \<Rightarrow> jsval \<Rightarrow> js_error + bool" where
  "id_differs selected n =
     bind_js (get_prop n ''id'') (\<lambda>i.
     bind_js (get_prop selected ''id'') (\<lambda>j. Inr (\<not> strict_eq i j)))"

definition saved_node :: "jsval \<Rightarrow> jsval \<Rightarrow> js_error + jsval" where
  "saved_node selected form =
     bind_js (get_prop selected ''data'') (\<lambda>d.
       Inr (JObj (obj_assign (spread selected)
              [(''data'', JObj (obj_assign (spread d) (spread form)))])))"

definition handleSaveNode :: "jsval \<Rightarrow> editor \<Rightarrow> outcome" where
  "handleSaveNode form st =
     (case bind_js (filter_js (id_differs (selectedNode st)) (store_nodes st)) (\<lambda>kept.
           bind_js (saved_node (selectedNode st) form) (\<lambda>n. Inr (kept @ [n]))) of
        Inl e \<Rightarrow> Thrown e st
      | Inr ns \<Rightarrow> saveToHistory (setNodes ns st))"

text \<open>
  \<^verbatim>\<open>NodeConfigPanel.vue\<close>: the form is filled from the node it is given, every field
  with a default; its save button emits \<^verbatim>\<open>save\<close> with the form, which runs
  \<open>handleSaveNode\<close>, and then gives the success notice. It does not emit \<^verbatim>\<open>close\<close>.
\<close>

definition formData :: "jsval \<Rightarrow> jsval" where
  "formData node =
     (let d = opt_prop node ''data'' in
      JObj [(''label'', js_or (opt_prop d ''label'') (JStr [])),
            (''assignee'', js_or (opt_prop d ''assignee'') (JStr [])),
            (''priority'', js_or (opt_prop d ''priority'') (JStr ''medium'')),
            (''approver'', js_or (opt_prop d ''approver'') (JStr [])),
            (''approvalType'', js_or (opt_prop d ''approvalType'') (JStr ''single'')),
            (''notifyType'', js_or (opt_prop d ''notifyType'') (JStr ''email'')),
            (''recipients'', js_or (opt_prop d ''recipients'') (JStr [])),
            (''delay'', js_or (opt_prop d ''delay'') (JNum 0)),
            (''condition'', js_or (opt_prop d ''condition'') (JStr [])),
            (''branchCount'', js_or (opt_prop d ''branchCount'') (JNum 2)),
            (''description'', js_or (opt_prop d ''description'') (JStr []))])"

definition NodeConfigPanel_handleSave :: "jsval \<Rightarrow> editor \<Rightarrow> outcome" where
  "NodeConfigPanel_handleSave form st =
     and_then (handleSaveNode form st) (\<lambda>s. Returned (notify LSuccess PanelSaved s))"

text \<open>The callback \<^verbatim>\<open>(e) => e.source !== selected.id && e.target !== selected.id\<close>.\<close>

definition avoids :: "jsval \<Rightarrow> jsval \<Rightarrow> js_error + bool" where
  "avoids selected e =
     bind_js (get_prop e ''source'') (\<lambda>s.
     bind_js (get_prop selected ''id'') (\<lambda>i.
       if strict_eq s i then Inr False
       else bind_js (get_prop e ''target'') (\<lambda>t.
            bind_js (get_prop selected ''id'') (\<lambda>j. Inr (\<not> strict_eq t j)))))"

text \<open>\<open>confirmed\<close>: the user pressed the confirm button of the dialog; otherwise the
  callback never runs.\<close>

definition handleDeleteNode :: "bool \<Rightarrow> editor \<Rightarrow> outcome" where
  "handleDeleteNode confirmed st =
     (if \<not> confirmed then Returned st
      else
     (case filter_js (id_differs (selectedNode st)) (store_nodes st) of
        Inl e \<Rightarrow> Thrown e st
      | Inr ns \<Rightarrow>
          let st1 = setNodes ns st in
     (case filter_js (avoids (selectedNode st1)) (store_edges st1) of
        Inl e \<Rightarrow> Thrown e st1
      | Inr es \<Rightarrow>
          saveToHistory (handleClosePanel (notify LSuccess NodeDeleted (setEdges es st1))))))"

definition saved_edge :: "jsval \<Rightarrow> jsval \<Rightarrow> js_error + jsval" where
  "saved_edge selected form =
     bind_js (get_prop form ''label'') (\<lambda>label.
     bind_js (get_prop form ''type'') (\<lambda>type.
     bind_js (get_prop form ''animated'') (\<lambda>animated.
     bind_js (get_prop form ''color'') (\<lambda>color.
     bind_js (get_prop form ''strokeWidth'') (\<lambda>strokeWidth.
     bind_js (get_prop form ''condition'') (\<lambda>condition.
     bind_js (get_prop form ''description'') (\<lambda>description.
       Inr (JObj (obj_assign (spread selected)
              [(''label'', label),
               (''type'', type),
               (''animated'', animated),
               (''style'', JObj [(''stroke'', color), (''strokeWidth'', strokeWidth)]),
               (''data'', JObj [(''condition'', condition), (''description'', description)])])))))))))"

definition handleSaveEdge :: "jsval \<Rightarrow> editor \<Rightarrow> outcome" where
  "handleSaveEdge form st =
     (case bind_js (filter_js (id_differs (selectedEdge st)) (store_edges st)) (\<lambda>kept.
           bind_js (saved_edge (selectedEdge st) form) (\<lambda>e. Inr (kept @ [e]))) of
        Inl e \<Rightarrow> Thrown e st
      | Inr es \<Rightarrow> saveToHistory (setEdges es st))"

section \<open>Auxiliary notions for the properties\<close>

text \<open>The editor as it is mounted around a seed graph: the refs hold the seed and the
  store has taken it in.\<close>

definition initial :: "jsval \<Rightarrow> jsval \<Rightarrow> editor" where
  "initial n e =
     sync \<lparr>nodes = n, edges = e, store_nodes = [], store_edges = [], history = [],
           historyIndex = - 1, updateState = [], selectedNode = JObj [],
           selectedEdge = JObj [], clipboard = JNull, notices = []\<rparr>"

text \<open>The index invariant together with the capacity bound.\<close>

definition hist_ok :: "editor \<Rightarrow> bool" where
  "hist_ok st = (index_invariant st \<and> int (length (history st)) \<le> maxHistory)"

text \<open>Objects, and the reading of a property of a value that is known to be one.\<close>

fun is_obj :: "jsval \<Rightarrow> bool" where
  "is_obj (JObj fs) = True"
| "is_obj v = False"

text \<open>
  Notions the properties are stated with: the number of edge endpoints that name no
  node of a list, and the name by which a message refers to an edge (its label, or its
  identifier when the label is empty).
\<close>

definition dangling_endpoints :: "jsval list \<Rightarrow> jsval list \<Rightarrow> nat" where
  "dangling_endpoints ns es =
     sum_list (map (\<lambda>e. (if opt_prop e ''source'' \<in> set (node_ids ns) then 0 else 1) +
                         (if opt_prop e ''target'' \<in> set (node_ids ns) then 0 else 1)) es)"

definition display_name :: "jsval \<Rightarrow> jsval" where
  "display_name e = js_or (opt_prop e ''label'') (opt_prop e ''id'')"

definition findings_of :: "jsval list \<Rightarrow> jsval \<Rightarrow> finding list" where
  "findings_of ids e =
     (if opt_prop e ''source'' \<in> set ids then [] else [SourceMissing (display_name e)]) @
     (if opt_prop e ''target'' \<in> set ids then [] else [TargetMissing (display_name e)])"

text \<open>The snapshot that \<open>saveToHistory\<close> takes of a pair of refs.\<close>

definition snap :: "jsval \<times> jsval \<Rightarrow> snapshot" where
  "snap g = \<lparr>snap_nodes = jclone (fst g), snap_edges = jclone (snd g)\<rparr>"

text \<open>Values that the deep copy returns as they are: nothing \<^verbatim>\<open>undefined\<close>, no \<open>NaN\<close>
  and no infinity anywhere inside.\<close>

fun json_clean :: "jsval \<Rightarrow> bool"
  and json_clean_elems :: "jsval list \<Rightarrow> bool"
  and json_clean_props :: "(string \<times> jsval) list \<Rightarrow> bool" where
  "json_clean JUndefined = False"
| "json_clean JNull = True"
| "json_clean (JBool b) = True"
| "json_clean (JNum n) = True"
| "json_clean JNaN = False"
| "json_clean (JInf b) = False"
| "json_clean (JStr s) = True"
| "json_clean (JArr xs) = json_clean_elems xs"
| "json_clean (JObj fs) = json_clean_props fs"
| "json_clean_elems [] = True"
| "json_clean_elems (x # xs) = (json_clean x \<and> json_clean_elems xs)"
| "json_clean_props [] = True"
| "json_clean_props (kv # fs) = (json_clean (snd kv) \<and> json_clean_props fs)"

text \<open>A small graph for the concrete instances: start, one task, end, and the two edges
  between them; the task and the second edge are selected.\<close>

definition n_start :: jsval where
  "n_start = JObj [(''id'', JStr ''start''), (''type'', JStr ''input''),
                   (''data'', JObj [(''label'', JStr ''Start'')]),
                   (''position'', JObj [(''x'', JNum 400), (''y'', JNum 50)]),
                   (''class'', JStr ''round-start'')]"

definition n_task :: jsval where
  "n_task = JObj [(''id'', JStr ''task1''), (''type'', JStr ''task''),
                  (''data'', JObj [(''label'', JStr ''Apply''), (''assignee'', JStr ''zhangsan''),
                                   (''priority'', JStr ''high'')]),
                  (''position'', JObj [(''x'', JNum 350), (''y'', JNum 150)])]"

definition n_end :: jsval where
  "n_end = JObj [(''id'', JStr ''end''), (''type'', JStr ''output''),
                 (''data'', JObj [(''label'', JStr ''End'')]),
                 (''position'', JObj [(''x'', JNum 400), (''y'', JNum 350)]),
                 (''class'', JStr ''round-stop'')]"

definition e_start_task :: jsval where
  "e_start_task = JObj [(''id'', JStr ''e-start-task1''), (''type'', JStr ''smoothstep''),
                        (''source'', JStr ''start''), (''target'', JStr ''task1''),
                        (''label'', JStr ''begin'')]"

definition e_task_end :: jsval where
  "e_task_end = JObj [(''id'', JStr ''e-task1-end''), (''type'', JStr ''smoothstep''),
                      (''source'', JStr ''task1''), (''target'', JStr ''end''),
                      (''label'', JStr ''done'')]"

definition sample :: editor where
  "sample = (initial (JArr [n_start, n_task, n_end]) (JArr [e_start_task, e_task_end]))
              \<lparr>updateState := ''node'', selectedNode := n_task, selectedEdge := e_task_end\<rparr>"

text \<open>
  For concrete instances: a table of texts with the value \<^verbatim>\<open>JSON.parse\<close> returns on
  each (on a text outside the table the parser of the instance throws), and a table of
  operands with the sum the host computes on each (\<open>NaN\<close> outside the table).
\<close>

definition parse_table :: "(string \<times> jsval) list \<Rightarrow> string \<Rightarrow> js_error + jsval" where
  "parse_table tab text = (case map_of tab text of Some v \<Rightarrow> Inr v | None \<Rightarrow> Inl SyntaxError)"

definition add_table :: "((jsval \<times> jsval) \<times> jsval) list \<Rightarrow> jsval \<Rightarrow> jsval \<Rightarrow> jsval" where
  "add_table tab a b = (case map_of tab (a, b) of Some v \<Rightarrow> v | None \<Rightarrow> JNaN)"

text \<open>
  The node that \<^verbatim>\<open>onDragStart\<close> builds for the timer entry of the palette at
  millisecond 1700000000000 with the pointer at \<open>(120, 240)\<close>, and that the drop adds
  to the store; the label of the entry is written in ASCII.
\<close>

definition timer_item :: jsval where
  "timer_item = JObj [(''type'', JStr ''timer''), (''label'', JStr ''Timer''),
                      (''class'', JStr ''timer-drag-item'')]"

definition n_dragged :: jsval where
  "n_dragged =
     JObj [(''id'', JStr ''node-1700000000000''),
           (''data'', JObj [(''label'', JStr ''Timer''), (''assignee'', JUndefined),
                            (''priority'', JUndefined), (''approver'', JUndefined),
                            (''approvalType'', JUndefined), (''notifyType'', JUndefined),
                            (''recipients'', JUndefined), (''delay'', JNum 0),
                            (''condition'', JUndefined), (''branchCount'', JUndefined)]),
           (''type'', JStr ''timer''),
           (''position'', JObj [(''x'', JNum 120), (''y'', JNum 240)]),
           (''class'', JStr ''timer-drag-item'')]"

text \<open>
  A file with one end node and one edge whose source names no node, and the value it
  parses to.
\<close>

definition e_ghost :: jsval where
  "e_ghost = JObj [(''id'', JStr ''e1''), (''source'', JStr ''ghost''), (''target'', JStr ''end'')]"

definition f_end :: jsval where
  "f_end = JObj [(''id'', JStr ''end''), (''type'', JStr ''output''),
                 (''data'', JObj [(''label'', JStr ''End'')]),
                 (''position'', JObj [(''x'', JNum 400), (''y'', JNum 350)])]"

definition ghost_file :: string where
  \<open>ghost_file = ''{"nodes":[{"id":"end","type":"output","data":{"label":"End"},"position":{"x":400,"y":350}}],"edges":[{"id":"e1","source":"ghost","target":"end"}]}''\<close>

definition ghost_graph :: jsval where
  "ghost_graph = JObj [(''nodes'', JArr [f_end]), (''edges'', JArr [e_ghost])]"

text \<open>
  The editor after the first record (the one \<^verbatim>\<open>onInit\<close> makes) and the confirmed
  deletion of the selected task, and the same editor after one undo and one redo, each
  assignment of the refs taken in by the store.
\<close>

definition after_delete :: editor where
  "after_delete = state_of (handleDeleteNode True (state_of (saveToHistory sample)))"

definition after_undo_redo :: editor where
  "after_undo_redo = sync (state_of (redo (sync (state_of (undo after_delete)))))"

section \<open>The store and the fixed instances\<close>

lemma sync_frame:
  "nodes (sync st) = nodes st" "edges (sync st) = edges st"
  "history (sync st) = history st" "historyIndex (sync st) = historyIndex st"
  "updateState (sync st) = updateState st" "selectedNode (sync st) = selectedNode st"
  "selectedEdge (sync st) = selectedEdge st" "clipboard (sync st) = clipboard st"
  "notices (sync st) = notices st"
  by (simp_all add: sync_def Let_def)

lemma initial_fields:
  "nodes (initial n e) = n" "edges (initial n e) = e"
  "history (initial n e) = []" "historyIndex (initial n e) = - 1"
  "updateState (initial n e) = []" "selectedNode (initial n e) = JObj []"
  "selectedEdge (initial n e) = JObj []" "clipboard (initial n e) = JNull"
  "notices (initial n e) = []"
  by (simp_all add: initial_def sync_frame)

lemma initial_empty_store:
  "store_nodes (initial (JArr []) (JArr [])) = []" "store_edges (initial (JArr []) (JArr [])) = []"
  by (simp_all add: initial_def sync_def)

lemma opt_prop_JObj:
  "opt_prop (JObj fs) k = (case map_of fs k of Some v \<Rightarrow> v | None \<Rightarrow> JUndefined)"
  by (simp add: opt_prop_def)

lemma sample_objects:
  "is_obj n_start" "is_obj n_task" "is_obj n_end" "is_obj e_start_task" "is_obj e_task_end"
  by (simp_all add: n_start_def n_task_def n_end_def e_start_task_def e_task_end_def)

lemma sample_props:
  "opt_prop n_start ''id'' = JStr ''start''" "opt_prop n_task ''id'' = JStr ''task1''"
  "opt_prop n_end ''id'' = JStr ''end''"
  "opt_prop n_start ''type'' = JStr ''input''" "opt_prop n_task ''type'' = JStr ''task''"
  "opt_prop n_end ''type'' = JStr ''output''"
  "opt_prop e_start_task ''id'' = JStr ''e-start-task1''"
  "opt_prop e_task_end ''id'' = JStr ''e-task1-end''"
  "opt_prop e_start_task ''source'' = JStr ''start''"
  "opt_prop e_start_task ''target'' = JStr ''task1''"
  "opt_prop e_task_end ''source'' = JStr ''task1''"
  "opt_prop e_task_end ''target'' = JStr ''end''"
  "opt_prop e_start_task ''label'' = JStr ''begin''"
  "opt_prop e_task_end ''label'' = JStr ''done''"
  by (simp_all add: opt_prop_JObj n_start_def n_task_def n_end_def e_start_task_def
      e_task_end_def)

lemma sample_stored:
  "store_node n_start = n_start" "store_node n_task = n_task" "store_node n_end = n_end"
  by (simp_all add: store_node_def n_start_def n_task_def n_end_def opt_prop_JObj)

lemma sample_fields:
  "nodes sample = JArr [n_start, n_task, n_end]"
  "edges sample = JArr [e_start_task, e_task_end]"
  "store_nodes sample = [n_start, n_task, n_end]"
  "store_edges sample = [e_start_task, e_task_end]"
  "selectedNode sample = n_task" "selectedEdge sample = e_task_end"
  "updateState sample = ''node''" "history sample = []" "historyIndex sample = - 1"
  "clipboard sample = JNull" "notices sample = []"
  by (simp_all add: sample_def initial_fields)
     (simp_all add: initial_def sync_def Let_def sample_stored node_ids_def sample_props)

section \<open>History: the index invariant\<close>

lemma saveToHistory_hist_ok: "hist_ok st \<Longrightarrow> hist_ok (state_of (saveToHistory st))"
  unfolding hist_ok_def index_invariant_def saveToHistory_def maxHistory_def js_slice0_def
  by (auto simp: Let_def min_def max_def split: sum.splits)

lemma restore_keeps_history:
  "history (state_of (restore m st)) = history st \<and>
   historyIndex (state_of (restore m st)) = historyIndex st"
  unfolding restore_def notify_def by (auto split: option.splits sum.splits)

lemma undo_hist_ok: "hist_ok st \<Longrightarrow> hist_ok (state_of (undo st))"
  unfolding hist_ok_def index_invariant_def undo_def
  by (auto simp: restore_keeps_history notify_def)

lemma redo_hist_ok: "hist_ok st \<Longrightarrow> hist_ok (state_of (redo st))"
  unfolding hist_ok_def index_invariant_def redo_def
  by (auto simp: restore_keeps_history notify_def)

lemma step_hist_ok: "hist_ok st \<Longrightarrow> hist_ok (step c st)"
proof (cases c)
  case (SetGraph n e)
  assume "hist_ok st"
  then show ?thesis using SetGraph by (simp add: hist_ok_def index_invariant_def)
qed (simp_all add: saveToHistory_hist_ok undo_hist_ok redo_hist_ok)

lemma run_hist_ok: "hist_ok st \<Longrightarrow> hist_ok (run cs st)"
  unfolding run_def by (induction cs arbitrary: st) (simp_all add: step_hist_ok)

lemma empty_history_ok: "history st = [] \<Longrightarrow> historyIndex st = - 1 \<Longrightarrow> hist_ok st"
  by (simp add: hist_ok_def index_invariant_def maxHistory_def)

text \<open>
  Claim C1. Start from the empty history (no snapshot, index \<open>-1\<close>) and make any
  sequence of calls of \<open>saveToHistory\<close>, \<open>undo\<close> and \<open>redo\<close>, with any edits of the
  graph in between. After each call, that is after every prefix of the sequence, the
  index is a valid position of the history, or the history is empty and the index is
  \<open>-1\<close>. Eviction at capacity and repeated calls at either end are sequences like any
  other.
\<close>

theorem history_index_invariant:
  assumes "history st = []" and "historyIndex st = - 1"
  shows "\<forall>k \<le> length cs. index_invariant (run (take k cs) st)"
proof -
  have "hist_ok st" using assms by (rule empty_history_ok)
  then have "hist_ok (run (take k cs) st)" for k by (rule run_hist_ok)
  then show ?thesis by (simp add: hist_ok_def)
qed

theorem history_index_invariant_witness:
  "history (initial (JArr []) (JArr [])) = [] \<and>
   historyIndex (initial (JArr []) (JArr [])) = - 1 \<and>
   index_invariant
     (run (replicate 51 Record @ [Undo, Redo, Redo]) (initial (JArr []) (JArr []))) \<and>
   index_invariant (run (replicate 3 Undo) (initial (JArr []) (JArr [])))"
proof -
  have h1: "history (initial (JArr []) (JArr [])) = []" by (simp add: initial_fields)
  have h2: "historyIndex (initial (JArr []) (JArr [])) = - 1" by (simp add: initial_fields)
  have "index_invariant (run (take (length cs) cs) (initial (JArr []) (JArr [])))" for cs
    using history_index_invariant [OF h1 h2, of cs] by blast
  then show ?thesis using h1 h2 by simp
qed

section \<open>Total cases of the throwing operations\<close>

lemma get_prop_obj: "is_obj v \<Longrightarrow> get_prop v k = Inr (opt_prop v k)"
  by (cases v) (simp_all add: opt_prop_def)

lemma filter_js_total:
  "(\<And>x. x \<in> set xs \<Longrightarrow> p x = Inr (q x)) \<Longrightarrow> filter_js p xs = Inr (filter q xs)"
  by (induction xs) simp_all

lemma map_js_total:
  "(\<And>x. x \<in> set xs \<Longrightarrow> f x = Inr (g x)) \<Longrightarrow> map_js f xs = Inr (map g xs)"
  by (induction xs) simp_all

lemma some_js_total:
  "(\<And>x. x \<in> set xs \<Longrightarrow> p x = Inr (q x)) \<Longrightarrow> some_js p xs = Inr (list_ex q xs)"
  by (induction xs) simp_all

lemma saveToHistory_returns:
  "nodes st \<noteq> JUndefined \<Longrightarrow> edges st \<noteq> JUndefined \<Longrightarrow>
   \<exists>st'. saveToHistory st = Returned st' \<and> nodes st' = nodes st \<and> edges st' = edges st
      \<and> selectedNode st' = selectedNode st \<and> selectedEdge st' = selectedEdge st
      \<and> updateState st' = updateState st \<and> clipboard st' = clipboard st
      \<and> notices st' = notices st
      \<and> store_nodes st' = store_nodes st \<and> store_edges st' = store_edges st"
  by (simp add: saveToHistory_def json_clone_def Let_def)

lemma id_differs_total:
  "is_obj sel \<Longrightarrow> is_obj n \<Longrightarrow>
   id_differs sel n = Inr (\<not> strict_eq (opt_prop n ''id'') (opt_prop sel ''id''))"
  by (simp add: id_differs_def get_prop_obj)

lemma id_differs_str:
  "is_obj sel \<Longrightarrow> is_obj n \<Longrightarrow> opt_prop sel ''id'' = JStr i \<Longrightarrow>
   id_differs sel n = Inr (opt_prop n ''id'' \<noteq> JStr i)"
  by (auto simp: id_differs_total strict_eq_def)

lemma avoids_str:
  "is_obj sel \<Longrightarrow> is_obj e \<Longrightarrow> opt_prop sel ''id'' = JStr i \<Longrightarrow>
   avoids sel e = Inr (opt_prop e ''source'' \<noteq> JStr i \<and> opt_prop e ''target'' \<noteq> JStr i)"
  by (auto simp add: avoids_def get_prop_obj strict_eq_def)

section \<open>Node deletion\<close>

lemma filter_distinct_remove1:
  "distinct (map f xs) \<Longrightarrow> x \<in> set xs \<Longrightarrow> filter (\<lambda>y. f y \<noteq> f x) xs = remove1 x xs"
proof (induction xs)
  case Nil
  then show ?case by simp
next
  case (Cons a xs)
  show ?case
  proof (cases "a = x")
    case True
    then have "\<forall>y\<in>set xs. f y \<noteq> f x"
      using Cons.prems by (metis distinct.simps(2) image_eqI list.simps(9) set_map)
    then have "filter (\<lambda>y. f y \<noteq> f x) xs = xs" by (simp add: filter_id_conv)
    then show ?thesis using True by simp
  next
    case False
    then have "x \<in> set xs" using Cons.prems by simp
    then have "f a \<noteq> f x" using Cons.prems by auto
    then show ?thesis using False Cons \<open>x \<in> set xs\<close> by simp
  qed
qed

text \<open>
  Claim C5. In a graph of node and edge objects, let the selected node carry the
  identifier \<open>i\<close> of a node of the graph. The confirmed deletion returns; the node list
  keeps, in order and unchanged, exactly the nodes whose identifier is not \<open>i\<close>; the edge
  list keeps, in order and unchanged, exactly the edges whose source and target both
  differ from \<open>i\<close>. Where identifiers are unique, the node list has lost that one node
  and nothing else. The lists are those of the store, which is what the canvas shows
  and what the handler reads and writes; the refs hold arrays or any other value that
  \<^verbatim>\<open>JSON.stringify\<close> takes.
\<close>

theorem delete_node_cascade:
  assumes "store_nodes st = ns" and "store_edges st = es"
    and "\<forall>n \<in> set ns. is_obj n" and "\<forall>e \<in> set es. is_obj e"
    and "is_obj (selectedNode st)" and "opt_prop (selectedNode st) ''id'' = JStr i"
    and "JStr i \<in> set (node_ids ns)"
    and "nodes st \<noteq> JUndefined" and "edges st \<noteq> JUndefined"
  shows "\<exists>st'. handleDeleteNode True st = Returned st' \<and>
           store_nodes st' = filter (\<lambda>n. opt_prop n ''id'' \<noteq> JStr i) ns \<and>
           store_edges st' = filter (\<lambda>e. opt_prop e ''source'' \<noteq> JStr i \<and>
                                          opt_prop e ''target'' \<noteq> JStr i) es \<and>
           (distinct (node_ids ns) \<longrightarrow>
              (\<exists>n \<in> set ns. opt_prop n ''id'' = JStr i \<and> store_nodes st' = remove1 n ns))"
proof -
  let ?sel = "selectedNode st"
  let ?ns = "filter (\<lambda>n. opt_prop n ''id'' \<noteq> JStr i) ns"
  let ?es = "filter (\<lambda>e. opt_prop e ''source'' \<noteq> JStr i \<and> opt_prop e ''target'' \<noteq> JStr i) es"
  have a: "filter_js (id_differs ?sel) ns = Inr ?ns"
    using assms by (intro filter_js_total) (simp add: id_differs_str)
  have b: "filter_js (avoids ?sel) es = Inr ?es"
    using assms by (intro filter_js_total) (simp add: avoids_str)
  let ?s = "handleClosePanel (notify LSuccess NodeDeleted (setEdges ?es (setNodes ?ns st)))"
  have c: "handleDeleteNode True st = saveToHistory ?s"
    using assms(1,2) a b by (simp add: handleDeleteNode_def Let_def setNodes_def)
  have "nodes ?s \<noteq> JUndefined" "edges ?s \<noteq> JUndefined"
    using assms(8,9) by (simp_all add: handleClosePanel_def notify_def setNodes_def setEdges_def)
  from saveToHistory_returns[OF this] obtain st' where
    d: "saveToHistory ?s = Returned st'" "store_nodes st' = store_nodes ?s"
       "store_edges st' = store_edges ?s"
    by (elim exE conjE) (rule that)
  have e: "store_nodes st' = ?ns" "store_edges st' = ?es"
    using d by (simp_all add: handleClosePanel_def notify_def setNodes_def setEdges_def)
  have f: "distinct (node_ids ns) \<longrightarrow>
           (\<exists>n \<in> set ns. opt_prop n ''id'' = JStr i \<and> store_nodes st' = remove1 n ns)"
  proof
    assume dist: "distinct (node_ids ns)"
    from assms(7) obtain n where n: "n \<in> set ns" "opt_prop n ''id'' = JStr i"
      by (auto simp: node_ids_def)
    have "filter (\<lambda>y. opt_prop y ''id'' \<noteq> opt_prop n ''id'') ns = remove1 n ns"
      using dist n(1) unfolding node_ids_def by (rule filter_distinct_remove1)
    then show "\<exists>n \<in> set ns. opt_prop n ''id'' = JStr i \<and> store_nodes st' = remove1 n ns"
      using n e by auto
  qed
  show ?thesis using c d(1) e f by simp
qed

theorem delete_node_cascade_witness:
  "JStr ''task1'' \<in> set (node_ids [n_start, n_task, n_end]) \<and>
   distinct (node_ids [n_start, n_task, n_end]) \<and>
   (\<exists>st'. handleDeleteNode True sample = Returned st' \<and>
      store_nodes st' = [n_start, n_end] \<and> store_edges st' = [])"
proof -
  have ids: "node_ids [n_start, n_task, n_end] = [JStr ''start'', JStr ''task1'', JStr ''end'']"
    by (simp add: node_ids_def sample_props)
  have h: "\<forall>n \<in> set [n_start, n_task, n_end]. is_obj n"
    "\<forall>e \<in> set [e_start_task, e_task_end]. is_obj e"
    "is_obj (selectedNode sample)" "opt_prop (selectedNode sample) ''id'' = JStr ''task1''"
    "JStr ''task1'' \<in> set (node_ids [n_start, n_task, n_end])"
    "nodes sample \<noteq> JUndefined" "edges sample \<noteq> JUndefined"
    by (simp_all add: sample_fields sample_objects sample_props ids)
  from delete_node_cascade [OF sample_fields(3) sample_fields(4) h]
  obtain st' where "handleDeleteNode True sample = Returned st'"
    "store_nodes st' = filter (\<lambda>n. opt_prop n ''id'' \<noteq> JStr ''task1'') [n_start, n_task, n_end]"
    "store_edges st' = filter (\<lambda>e. opt_prop e ''source'' \<noteq> JStr ''task1'' \<and>
        opt_prop e ''target'' \<noteq> JStr ''task1'') [e_start_task, e_task_end]"
    by (elim exE conjE) (rule that)
  then have "\<exists>st'. handleDeleteNode True sample = Returned st' \<and>
      store_nodes st' = [n_start, n_end] \<and> store_edges st' = []"
    by (simp add: sample_props)
  then show ?thesis using h(5) ids by simp
qed

section \<open>Validator\<close>

lemma edge_name_obj: "is_obj e \<Longrightarrow> edge_name e = Inr (display_name e)"
  by (simp add: edge_name_def display_name_def get_prop_obj js_or_def)

lemma edge_findings_obj: "is_obj e \<Longrightarrow> edge_findings ids e = Inr (findings_of ids e)"
  by (simp add: edge_findings_def findings_of_def get_prop_obj edge_name_obj)

lemma has_type_obj: "is_obj n \<Longrightarrow> has_type t n = Inr (opt_prop n ''type'' = JStr t)"
  by (auto simp add: has_type_def get_prop_obj strict_eq_def)

lemma touches_obj:
  "is_obj n \<Longrightarrow> is_obj e \<Longrightarrow>
   touches n e = Inr (strict_eq (opt_prop e ''source'') (opt_prop n ''id'') \<or>
                      strict_eq (opt_prop e ''target'') (opt_prop n ''id''))"
  by (simp add: touches_def get_prop_obj)

lemma is_orphan_obj:
  "is_obj n \<Longrightarrow> \<forall>e \<in> set es. is_obj e \<Longrightarrow>
   is_orphan es n =
     Inr (\<not> list_ex (\<lambda>e. strict_eq (opt_prop e ''source'') (opt_prop n ''id'') \<or>
                          strict_eq (opt_prop e ''target'') (opt_prop n ''id'')) es)"
  unfolding is_orphan_def
  by (subst some_js_total[where q = "\<lambda>e. strict_eq (opt_prop e ''source'') (opt_prop n ''id'') \<or>
                      strict_eq (opt_prop e ''target'') (opt_prop n ''id'')"])
     (simp_all add: touches_obj)

lemma no_dangling_findings:
  "dangling_endpoints ns es = 0 \<Longrightarrow> concat (map (findings_of (node_ids ns)) es) = []"
  by (induction es) (auto simp: dangling_endpoints_def findings_of_def split: if_splits)

lemma one_dangling_finding:
  "dangling_endpoints ns es = 1 \<Longrightarrow>
   \<exists>e \<in> set es.
     (opt_prop e ''source'' \<notin> set (node_ids ns) \<and>
        concat (map (findings_of (node_ids ns)) es) = [SourceMissing (display_name e)]) \<or>
     (opt_prop e ''target'' \<notin> set (node_ids ns) \<and>
        concat (map (findings_of (node_ids ns)) es) = [TargetMissing (display_name e)])"
proof (induction es)
  case Nil
  then show ?case by (simp add: dangling_endpoints_def)
next
  case (Cons a es)
  let ?ids = "node_ids ns"
  let ?k = "(if opt_prop a ''source'' \<in> set ?ids then 0 else 1) +
            (if opt_prop a ''target'' \<in> set ?ids then 0 else (1::nat))"
  have split: "dangling_endpoints ns (a # es) = ?k + dangling_endpoints ns es"
    by (simp add: dangling_endpoints_def)
  show ?case
  proof (cases "dangling_endpoints ns es = 0")
    case True
    then have rest: "concat (map (findings_of ?ids) es) = []" by (rule no_dangling_findings)
    have "?k = 1" using Cons.prems split True by simp
    then show ?thesis using rest by (auto simp: findings_of_def split: if_splits)
  next
    case False
    then have one: "dangling_endpoints ns es = 1" and zero: "?k = 0"
      using Cons.prems split by (auto split: if_splits)
    from zero have "findings_of ?ids a = []" by (auto simp: findings_of_def split: if_splits)
    then show ?thesis using Cons.IH[OF one] by auto
  qed
qed

text \<open>
  The checks of the validator on the lists it is given. With at least one node, no node
  of kind \<^verbatim>\<open>input\<close>, at least one of kind \<^verbatim>\<open>output\<close> and exactly one edge endpoint
  that names no node, the verdict is a failure with two errors: the missing start node,
  then the missing source or target of that edge, named by its label or identifier.
\<close>

lemma validate_checks_endpoints:
  assumes "store_nodes st = ns" and "store_edges st = es"
    and "ns \<noteq> []"
    and "\<forall>n \<in> set ns. is_obj n \<and> is_obj (opt_prop n ''data'')"
    and "\<forall>e \<in> set es. is_obj e"
    and "\<forall>n \<in> set ns. opt_prop n ''type'' \<noteq> JStr ''input''"
    and "\<exists>n \<in> set ns. opt_prop n ''type'' = JStr ''output''"
    and "dangling_endpoints ns es = 1"
  shows "\<exists>e \<in> set es. \<exists>ws.
           (opt_prop e ''source'' \<notin> set (node_ids ns) \<and>
              handleValidate st = Inr (Failed [NoStart, SourceMissing (display_name e)] ws)) \<or>
           (opt_prop e ''target'' \<notin> set (node_ids ns) \<and>
              handleValidate st = Inr (Failed [NoStart, TargetMissing (display_name e)] ws))"
proof -
  let ?orph = "\<lambda>n. \<not> list_ex (\<lambda>e. strict_eq (opt_prop e ''source'') (opt_prop n ''id'') \<or>
                      strict_eq (opt_prop e ''target'') (opt_prop n ''id'')) es"
  let ?ends = "filter (\<lambda>n. opt_prop n ''type'' = JStr ''output'') ns"
  have starts: "filter_js (has_type ''input'') ns = Inr []"
    using assms(4,6)
    by (subst filter_js_total[where q = "\<lambda>n. opt_prop n ''type'' = JStr ''input''"])
       (simp_all add: has_type_obj)
  have ends: "filter_js (has_type ''output'') ns = Inr ?ends"
    using assms(4) by (intro filter_js_total) (simp add: has_type_obj)
  have ends_ne: "?ends \<noteq> []" using assms(7) by (simp add: filter_empty_conv)
  have ids: "map_js (\<lambda>n. get_prop n ''id'') ns = Inr (node_ids ns)"
    unfolding node_ids_def using assms(4) by (intro map_js_total) (simp add: get_prop_obj)
  have errs: "map_js (edge_findings (node_ids ns)) es = Inr (map (findings_of (node_ids ns)) es)"
    using assms(5) by (intro map_js_total) (simp add: edge_findings_obj)
  have orph: "filter_js (is_orphan es) ns = Inr (filter ?orph ns)"
    using assms(4,5) by (intro filter_js_total) (simp add: is_orphan_obj)
  have labels:
    "map_js (\<lambda>n. bind_js (get_prop n ''data'') (\<lambda>d. get_prop d ''label'')) (filter ?orph ns) =
     Inr (map (\<lambda>n. opt_prop (opt_prop n ''data'') ''label'') (filter ?orph ns))"
    using assms(4) by (intro map_js_total) (simp add: get_prop_obj)
  define ws where "ws =
     (if length ?ends > 1 then [ManyEnds] else []) @
     (if filter ?orph ns \<noteq> [] then [Orphans (length (filter ?orph ns))
          (map (\<lambda>n. opt_prop (opt_prop n ''data'') ''label'') (filter ?orph ns))]
      else [])"
  have v: "handleValidate st =
      Inr (Failed (NoStart # concat (map (findings_of (node_ids ns)) es)) ws)"
    using assms(1,2,3) ends_ne
    by (simp add: handleValidate_def starts ends ids errs orph labels ws_def Let_def)
  from one_dangling_finding[OF assms(8)] show ?thesis using v by auto
qed

text \<open>
  The store never gives the validator such lists: once it has taken in the refs, no
  endpoint of a stored edge is without its node.
\<close>

lemma sync_no_dangling:
  assumes "nodes st = JArr ns" and "edges st = JArr es"
  shows "dangling_endpoints (store_nodes (sync st)) (store_edges (sync st)) = 0"
proof -
  have "\<And>ids xs. sum_list (map (\<lambda>e. (if opt_prop e ''source'' \<in> ids then 0 else 1) +
                         (if opt_prop e ''target'' \<in> ids then 0 else (1::nat)))
            (filter (\<lambda>e. opt_prop e ''source'' \<in> ids \<and> opt_prop e ''target'' \<in> ids) xs)) = 0"
    by simp
  then show ?thesis using assms by (simp add: sync_def Let_def dangling_endpoints_def)
qed

lemma ghost_props:
  "opt_prop f_end ''id'' = JStr ''end''" "opt_prop f_end ''type'' = JStr ''output''"
  "opt_prop f_end ''data'' = JObj [(''label'', JStr ''End'')]"
  "opt_prop e_ghost ''source'' = JStr ''ghost''" "opt_prop e_ghost ''target'' = JStr ''end''"
  "opt_prop e_ghost ''id'' = JStr ''e1''" "opt_prop e_ghost ''label'' = JUndefined"
  "store_node f_end = f_end" "is_obj f_end" "is_obj e_ghost"
  by (simp_all add: f_end_def e_ghost_def opt_prop_JObj store_node_def)

text \<open>
  Claim C6. Import, into the empty editor, the file with one end node and one edge
  from a node \<^verbatim>\<open>ghost\<close> that the file does not have. The graph of the refs, the one that
  save and export write out, is not empty, has an end node, no start node and exactly
  one dangling edge endpoint; the store has not taken the edge, and the validator, which
  reads the store, reports the missing start node alone, with the end node as an orphan.
\<close>

theorem validate_misses_dangling_edge:
  "nodes (sync (handleFileChange (parse_table [(ghost_file, ghost_graph)]) (Some ghost_file)
                  (initial (JArr []) (JArr [])))) = JArr [f_end] \<and>
   edges (sync (handleFileChange (parse_table [(ghost_file, ghost_graph)]) (Some ghost_file)
                  (initial (JArr []) (JArr [])))) = JArr [e_ghost] \<and>
   dangling_endpoints [f_end] [e_ghost] = 1 \<and>
   opt_prop f_end ''type'' = JStr ''output'' \<and>
   store_edges (sync (handleFileChange (parse_table [(ghost_file, ghost_graph)]) (Some ghost_file)
                  (initial (JArr []) (JArr [])))) = [] \<and>
   handleValidate (sync (handleFileChange (parse_table [(ghost_file, ghost_graph)])
                  (Some ghost_file) (initial (JArr []) (JArr [])))) =
     Inr (Failed [NoStart] [Orphans 1 [JStr ''End'']])"
proof -
  define st where "st = handleFileChange (parse_table [(ghost_file, ghost_graph)])
                          (Some ghost_file) (initial (JArr []) (JArr []))"
  have f: "nodes st = JArr [f_end]" "edges st = JArr [e_ghost]"
    by (simp_all add: st_def handleFileChange_def parse_table_def ghost_graph_def
        initial_fields saveToHistory_def json_clone_def Let_def notify_def js_slice0_def
        maxHistory_def)
  have s: "store_nodes (sync st) = [f_end]" "store_edges (sync st) = []"
    by (simp_all add: sync_def Let_def f ghost_props node_ids_def)
  have d: "dangling_endpoints [f_end] [e_ghost] = 1"
    by (simp add: dangling_endpoints_def node_ids_def ghost_props)
  have v: "handleValidate (sync st) = Inr (Failed [NoStart] [Orphans 1 [JStr ''End'']])"
    by (simp add: handleValidate_def s Let_def has_type_def is_orphan_def f_end_def
        strict_eq_def)
  show ?thesis using f s d v ghost_props(2) unfolding st_def by (simp add: sync_frame)
qed

text \<open>
  Claim C10. On the empty graph the validator runs all its checks: the verdict is a
  failure with exactly the three errors no nodes, no start node, no end node, in this
  order, and with no warning.
\<close>

theorem validate_empty_graph:
  assumes "store_nodes st = []" and "store_edges st = []"
  shows "handleValidate st = Inr (Failed [NoNodes, NoStart, NoEnd] [])"
  using assms by (simp add: handleValidate_def)

theorem validate_empty_graph_witness:
  "store_nodes (initial (JArr []) (JArr [])) = [] \<and>
   store_edges (initial (JArr []) (JArr [])) = [] \<and>
   handleValidate (initial (JArr []) (JArr [])) = Inr (Failed [NoNodes, NoStart, NoEnd] [])"
proof -
  have h: "store_nodes (initial (JArr []) (JArr [])) = []"
    "store_edges (initial (JArr []) (JArr [])) = []"
    by (rule initial_empty_store)+
  show ?thesis using validate_empty_graph [OF h] h by simp
qed

section \<open>Saving a configuration form\<close>

lemma obj_assign_Cons: "obj_assign a ((k, v) # b) = obj_assign (AList.update k v a) b"
  by (simp add: obj_assign_def)

lemma obj_assign_Nil: "obj_assign a [] = a"
  by (simp add: obj_assign_def)

lemma map_of_obj_assign:
  "map_of (obj_assign a b) k =
     (case map_of (rev b) k of Some v \<Rightarrow> Some v | None \<Rightarrow> map_of a k)"
proof (induction b arbitrary: a)
  case Nil
  then show ?case by (simp add: obj_assign_Nil)
next
  case (Cons kv b)
  obtain k' v' where kv: "kv = (k', v')" by (cases kv)
  show ?case unfolding kv obj_assign_Cons Cons.IH
    by (auto simp: update_conv' map_add_def split: option.splits)
qed

lemma map_of_rev_distinct: "distinct (map fst b) \<Longrightarrow> map_of (rev b) = map_of b"
  by (metis distinct_rev map_of_inject_set rev_map set_rev distinct_map)

text \<open>
  Claim C8. A node object with a data object is selected and its panel is open. The
  save button of the panel, with any form, returns and leaves as the node list the
  nodes of another identifier followed by a node whose data has, for every key of the form, the form's value, and for every other key
  the value the selected node's data had; the other properties of the node are those of
  the selected node. The selection is as before: the panel state is still \<^verbatim>\<open>node\<close>
  and the selected node is unchanged.
\<close>

theorem save_node_shallow_merge:
  assumes "store_nodes st = ns" and "nodes st \<noteq> JUndefined" and "edges st \<noteq> JUndefined"
    and "\<forall>n \<in> set ns. is_obj n"
    and "selectedNode st = JObj sf" and "opt_prop (JObj sf) ''data'' = JObj df"
    and "updateState st = ''node''"
    and "distinct (map fst ff)"
  shows "\<exists>st' n' df'.
           NodeConfigPanel_handleSave (JObj ff) st = Returned st' \<and>
           store_nodes st' =
             filter (\<lambda>n. \<not> strict_eq (opt_prop n ''id'') (opt_prop (JObj sf) ''id'')) ns @ [n'] \<and>
           opt_prop n' ''data'' = JObj df' \<and>
           (\<forall>k. opt_prop (JObj df') k =
                  (if k \<in> fst ` set ff then opt_prop (JObj ff) k else opt_prop (JObj df) k)) \<and>
           (\<forall>k. k \<noteq> ''data'' \<longrightarrow> opt_prop n' k = opt_prop (JObj sf) k) \<and>
           updateState st' = ''node'' \<and> selectedNode st' = JObj sf"
proof -
  let ?q = "\<lambda>n. \<not> strict_eq (opt_prop n ''id'') (opt_prop (JObj sf) ''id'')"
  let ?df' = "obj_assign df ff"
  let ?n' = "JObj (AList.update ''data'' (JObj ?df') sf)"
  have kept: "filter_js (id_differs (JObj sf)) ns = Inr (filter ?q ns)"
    using assms(4) by (intro filter_js_total) (simp add: id_differs_total)
  have "get_prop (JObj sf) ''data'' = Inr (JObj df)"
    using assms(6) by (simp add: opt_prop_JObj)
  then have node: "saved_node (JObj sf) (JObj ff) = Inr ?n'"
    by (simp add: saved_node_def obj_assign_Cons obj_assign_Nil)
  let ?s = "setNodes (filter ?q ns @ [?n']) st"
  have call: "handleSaveNode (JObj ff) st = saveToHistory ?s"
    using assms(1,5) kept node by (simp add: handleSaveNode_def)
  have "nodes ?s \<noteq> JUndefined" "edges ?s \<noteq> JUndefined"
    using assms(2,3) by (simp_all add: setNodes_def)
  from saveToHistory_returns[OF this] obtain s' where
    s': "saveToHistory ?s = Returned s'" "store_nodes s' = store_nodes ?s"
        "selectedNode s' = selectedNode ?s" "updateState s' = updateState ?s"
    by (elim exE conjE) (rule that)
  define st' where "st' = notify LSuccess PanelSaved s'"
  have panel: "NodeConfigPanel_handleSave (JObj ff) st = Returned st'"
    using call s'(1) by (simp add: NodeConfigPanel_handleSave_def st'_def)
  have st': "store_nodes st' = filter ?q ns @ [?n']" "selectedNode st' = selectedNode st"
    "updateState st' = updateState st"
    using s' by (simp_all add: st'_def notify_def setNodes_def)
  have merged: "opt_prop (JObj ?df') k =
      (if k \<in> fst ` set ff then opt_prop (JObj ff) k else opt_prop (JObj df) k)" for k
  proof (cases "map_of ff k")
    case None
    then have "k \<notin> fst ` set ff" by (simp add: map_of_eq_None_iff)
    then show ?thesis using None assms(8)
      by (simp add: opt_prop_JObj map_of_obj_assign map_of_rev_distinct)
  next
    case (Some v)
    then have "k \<in> fst ` set ff" by (meson domI domIff map_of_eq_None_iff)
    then show ?thesis using Some assms(8)
      by (simp add: opt_prop_JObj map_of_obj_assign map_of_rev_distinct)
  qed
  have data: "opt_prop ?n' ''data'' = JObj ?df'"
    by (simp add: opt_prop_JObj update_conv')
  have rest: "k \<noteq> ''data'' \<Longrightarrow> opt_prop ?n' k = opt_prop (JObj sf) k" for k
    by (simp add: opt_prop_JObj update_conv')
  show ?thesis
    using panel st' data merged rest assms(5,7)
    by (intro exI[of _ st'] exI[of _ ?n'] exI[of _ ?df']) simp
qed

theorem save_node_shallow_merge_witness:
  "\<exists>st' n' df'.
     NodeConfigPanel_handleSave (JObj [(''label'', JStr ''Review''), (''priority'', JStr ''low'')]) sample
       = Returned st' \<and>
     store_nodes st' = [n_start, n_end, n'] \<and> opt_prop n' ''data'' = JObj df' \<and>
     opt_prop (JObj df') ''label'' = JStr ''Review'' \<and>
     opt_prop (JObj df') ''assignee'' = JStr ''zhangsan'' \<and>
     opt_prop (JObj df') ''priority'' = JStr ''low'' \<and>
     opt_prop n' ''id'' = JStr ''task1'' \<and>
     updateState st' = ''node'' \<and> selectedNode st' = n_task"
proof -
  let ?ff = "[(''label'', JStr ''Review''), (''priority'', JStr ''low'')]"
  let ?sf = "[(''id'', JStr ''task1''), (''type'', JStr ''task''),
              (''data'', JObj [(''label'', JStr ''Apply''), (''assignee'', JStr ''zhangsan''),
                               (''priority'', JStr ''high'')]),
              (''position'', JObj [(''x'', JNum 350), (''y'', JNum 150)])]"
  let ?df = "[(''label'', JStr ''Apply''), (''assignee'', JStr ''zhangsan''),
              (''priority'', JStr ''high'')]"
  have h: "nodes sample \<noteq> JUndefined" "edges sample \<noteq> JUndefined"
    "\<forall>n \<in> set [n_start, n_task, n_end]. is_obj n"
    "selectedNode sample = JObj ?sf" "opt_prop (JObj ?sf) ''data'' = JObj ?df"
    "updateState sample = ''node''" "distinct (map fst ?ff)"
    by (simp_all add: sample_fields sample_objects n_task_def opt_prop_JObj)
  from save_node_shallow_merge [OF sample_fields(3) h]
  obtain st' n' df' where r:
    "NodeConfigPanel_handleSave (JObj ?ff) sample = Returned st'"
    "store_nodes st' =
       filter (\<lambda>n. \<not> strict_eq (opt_prop n ''id'') (opt_prop (JObj ?sf) ''id''))
         [n_start, n_task, n_end] @ [n']"
    "opt_prop n' ''data'' = JObj df'"
    "\<forall>k. opt_prop (JObj df') k =
        (if k \<in> fst ` set ?ff then opt_prop (JObj ?ff) k else opt_prop (JObj ?df) k)"
    "\<forall>k. k \<noteq> ''data'' \<longrightarrow> opt_prop n' k = opt_prop (JObj ?sf) k"
    "updateState st' = ''node''" "selectedNode st' = JObj ?sf"
    by (elim exE conjE) (rule that)
  have "opt_prop (JObj df') ''label'' = JStr ''Review''"
    "opt_prop (JObj df') ''assignee'' = JStr ''zhangsan''"
    "opt_prop (JObj df') ''priority'' = JStr ''low''"
    "opt_prop n' ''id'' = JStr ''task1''"
    using r(4,5) by (simp_all add: opt_prop_JObj)
  moreover have "store_nodes st' = [n_start, n_end, n']"
    using r(2) by (simp add: sample_props strict_eq_def opt_prop_JObj)
  ultimately show ?thesis using r(1,3,6,7) by (auto simp: n_task_def)
qed

text \<open>
  Claim C9. In a graph of node and edge objects, saving the form of the selected node
  with identifier \<open>i\<close> returns and leaves the node list as: the nodes whose identifier is
  not \<open>i\<close>, in their order and unchanged, followed by one node with identifier \<open>i\<close>; the
  edge list is untouched. Saving the form of the selected edge does the same to the
  edge list and leaves the node list untouched. The edited element therefore moves to
  the end of its list.
\<close>

theorem save_moves_to_end:
  assumes "store_nodes st = ns" and "store_edges st = es"
    and "\<forall>n \<in> set ns. is_obj n" and "\<forall>e \<in> set es. is_obj e"
    and "nodes st \<noteq> JUndefined" and "edges st \<noteq> JUndefined"
  shows "(selectedNode st = JObj sf \<and> opt_prop (JObj sf) ''id'' = JStr i \<longrightarrow>
           (\<exists>st' n'. handleSaveNode (JObj ff) st = Returned st' \<and>
              store_nodes st' = filter (\<lambda>n. opt_prop n ''id'' \<noteq> JStr i) ns @ [n'] \<and>
              opt_prop n' ''id'' = JStr i \<and> store_edges st' = es)) \<and>
         (selectedEdge st = JObj sf \<and> opt_prop (JObj sf) ''id'' = JStr i \<longrightarrow>
           (\<exists>st' e'. handleSaveEdge (JObj ff) st = Returned st' \<and>
              store_edges st' = filter (\<lambda>e. opt_prop e ''id'' \<noteq> JStr i) es @ [e'] \<and>
              opt_prop e' ''id'' = JStr i \<and> store_nodes st' = ns))"
proof (intro conjI impI)
  assume sel: "selectedNode st = JObj sf \<and> opt_prop (JObj sf) ''id'' = JStr i"
  let ?q = "\<lambda>n. opt_prop n ''id'' \<noteq> JStr i"
  have kept: "filter_js (id_differs (JObj sf)) ns = Inr (filter ?q ns)"
    using assms(3) sel by (intro filter_js_total) (simp add: id_differs_str)
  define n' where
    n': "n' = AList.update ''data''
               (JObj (obj_assign (spread (opt_prop (JObj sf) ''data'')) ff)) sf"
  have node: "saved_node (JObj sf) (JObj ff) = Inr (JObj n')"
    by (simp add: saved_node_def n' opt_prop_JObj obj_assign_Cons obj_assign_Nil)
  have idn: "opt_prop (JObj n') ''id'' = JStr i"
    using sel by (simp add: n' opt_prop_JObj update_conv')
  let ?s = "setNodes (filter ?q ns @ [JObj n']) st"
  have call: "handleSaveNode (JObj ff) st = saveToHistory ?s"
    using assms(1) sel kept node by (simp add: handleSaveNode_def)
  have "nodes ?s \<noteq> JUndefined" "edges ?s \<noteq> JUndefined"
    using assms(5,6) by (simp_all add: setNodes_def)
  from saveToHistory_returns[OF this] obtain st' where
    "saveToHistory ?s = Returned st'" "store_nodes st' = store_nodes ?s"
    "store_edges st' = store_edges ?s"
    by (elim exE conjE) (rule that)
  then have "handleSaveNode (JObj ff) st = Returned st' \<and>
              store_nodes st' = filter ?q ns @ [JObj n'] \<and>
              opt_prop (JObj n') ''id'' = JStr i \<and> store_edges st' = es"
    using call idn assms(2) by (simp add: setNodes_def)
  then show "\<exists>st' n'. handleSaveNode (JObj ff) st = Returned st' \<and>
              store_nodes st' = filter ?q ns @ [n'] \<and>
              opt_prop n' ''id'' = JStr i \<and> store_edges st' = es"
    by (intro exI)
next
  assume sel: "selectedEdge st = JObj sf \<and> opt_prop (JObj sf) ''id'' = JStr i"
  let ?q = "\<lambda>e. opt_prop e ''id'' \<noteq> JStr i"
  have kept: "filter_js (id_differs (JObj sf)) es = Inr (filter ?q es)"
    using assms(4) sel by (intro filter_js_total) (simp add: id_differs_str)
  obtain e' where edge: "saved_edge (JObj sf) (JObj ff) = Inr (JObj e')"
    and ide: "map_of e' ''id'' = map_of sf ''id''"
    by (simp add: saved_edge_def obj_assign_Cons obj_assign_Nil update_conv')
  have idn: "opt_prop (JObj e') ''id'' = JStr i"
    using sel ide by (simp add: opt_prop_JObj)
  let ?s = "setEdges (filter ?q es @ [JObj e']) st"
  have call: "handleSaveEdge (JObj ff) st = saveToHistory ?s"
    using assms(2) sel kept edge by (simp add: handleSaveEdge_def)
  have "nodes ?s \<noteq> JUndefined" "edges ?s \<noteq> JUndefined"
    using assms(5,6) by (simp_all add: setEdges_def)
  from saveToHistory_returns[OF this] obtain st' where
    "saveToHistory ?s = Returned st'" "store_nodes st' = store_nodes ?s"
    "store_edges st' = store_edges ?s"
    by (elim exE conjE) (rule that)
  then have "handleSaveEdge (JObj ff) st = Returned st' \<and>
              store_edges st' = filter ?q es @ [JObj e'] \<and>
              opt_prop (JObj e') ''id'' = JStr i \<and> store_nodes st' = ns"
    using call idn assms(1) by (simp add: setEdges_def)
  then show "\<exists>st' e'. handleSaveEdge (JObj ff) st = Returned st' \<and>
              store_edges st' = filter ?q es @ [e'] \<and>
              opt_prop e' ''id'' = JStr i \<and> store_nodes st' = ns"
    by (intro exI)
qed

theorem save_moves_to_end_witness:
  "(\<exists>st' n'. handleSaveNode (JObj [(''label'', JStr ''Review'')]) (sample\<lparr>selectedNode := n_start\<rparr>)
       = Returned st' \<and>
     store_nodes st' = [n_task, n_end, n'] \<and> opt_prop n' ''id'' = JStr ''start'') \<and>
   (\<exists>st' e'. handleSaveEdge (JObj [(''label'', JStr ''go'')]) (sample\<lparr>selectedEdge := e_start_task\<rparr>)
       = Returned st' \<and>
     store_edges st' = [e_task_end, e'] \<and> opt_prop e' ''id'' = JStr ''e-start-task1'')"
proof -
  let ?sn = "[(''id'', JStr ''start''), (''type'', JStr ''input''),
              (''data'', JObj [(''label'', JStr ''Start'')]),
              (''position'', JObj [(''x'', JNum 400), (''y'', JNum 50)]),
              (''class'', JStr ''round-start'')]"
  let ?se = "[(''id'', JStr ''e-start-task1''), (''type'', JStr ''smoothstep''),
              (''source'', JStr ''start''), (''target'', JStr ''task1''),
              (''label'', JStr ''begin'')]"
  let ?s1 = "sample\<lparr>selectedNode := n_start\<rparr>"
  let ?s2 = "sample\<lparr>selectedEdge := e_start_task\<rparr>"
  have g1: "store_nodes ?s1 = [n_start, n_task, n_end]" "store_edges ?s1 = [e_start_task, e_task_end]"
    "\<forall>n \<in> set [n_start, n_task, n_end]. is_obj n" "\<forall>e \<in> set [e_start_task, e_task_end]. is_obj e"
    "nodes ?s1 \<noteq> JUndefined" "edges ?s1 \<noteq> JUndefined"
    by (simp_all add: sample_fields sample_objects)
  have g2: "store_nodes ?s2 = [n_start, n_task, n_end]" "store_edges ?s2 = [e_start_task, e_task_end]"
    "nodes ?s2 \<noteq> JUndefined" "edges ?s2 \<noteq> JUndefined"
    by (simp_all add: sample_fields)
  have sel1: "selectedNode ?s1 = JObj ?sn \<and> opt_prop (JObj ?sn) ''id'' = JStr ''start''"
    by (simp add: n_start_def opt_prop_JObj)
  have sel2: "selectedEdge ?s2 = JObj ?se \<and> opt_prop (JObj ?se) ''id'' = JStr ''e-start-task1''"
    by (simp add: e_start_task_def opt_prop_JObj)
  note n = save_moves_to_end [where ff = "[(''label'', JStr ''Review'')]", OF g1,
      THEN conjunct1, THEN mp, OF sel1]
  have a: "\<exists>st' n'. handleSaveNode (JObj [(''label'', JStr ''Review'')]) ?s1 = Returned st' \<and>
     store_nodes st' = [n_task, n_end, n'] \<and> opt_prop n' ''id'' = JStr ''start''"
    using n by (simp add: sample_props) metis
  note e = save_moves_to_end [where ff = "[(''label'', JStr ''go'')]", OF g2(1,2) g1(3,4) g2(3,4),
      THEN conjunct2, THEN mp, OF sel2]
  have b: "\<exists>st' e'. handleSaveEdge (JObj [(''label'', JStr ''go'')]) ?s2 = Returned st' \<and>
     store_edges st' = [e_task_end, e'] \<and> opt_prop e' ''id'' = JStr ''e-start-task1''"
    using e by (simp add: sample_props) metis
  show ?thesis using a b by (rule conjI)
qed

section \<open>The deep copy\<close>

lemma jclone_defined: "jclone v \<noteq> JUndefined"
  by (cases v) simp_all

lemma jclone_clean:
  "json_clean v \<Longrightarrow> jclone v = v"
  "json_clean_elems xs \<Longrightarrow> jclone_elems xs = xs"
  "json_clean_props fs \<Longrightarrow> jclone_props fs = fs"
  by (induction v and xs and fs rule: jclone_jclone_elems_jclone_props.induct) auto

lemma jclone_idem:
  "jclone (jclone v) = jclone v"
  "jclone_elems (jclone_elems xs) = jclone_elems xs"
  "jclone_props (jclone_props fs) = jclone_props fs"
  by (induction v and xs and fs rule: jclone_jclone_elems_jclone_props.induct)
     (simp_all add: jclone_defined)

lemma map_of_jclone_props:
  "map_of fs k = Some v \<Longrightarrow> v \<noteq> JUndefined \<Longrightarrow> map_of (jclone_props fs) k = Some (jclone v)"
  by (induction fs) (auto split: if_splits)

lemma opt_prop_defined:
  "opt_prop (JObj fs) k = v \<Longrightarrow> v \<noteq> JUndefined \<Longrightarrow> map_of fs k = Some v"
  by (auto simp: opt_prop_JObj split: option.splits)

lemma saveToHistory_appends:
  assumes "nodes st \<noteq> JUndefined" and "edges st \<noteq> JUndefined"
  shows "\<exists>st'. saveToHistory st = Returned st' \<and>
           (\<exists>k d. d \<le> 1 \<and>
              history st' = drop d (take k (history st)) @ [snap (nodes st, edges st)]) \<and>
           (hist_ok st \<longrightarrow> historyIndex st' = int (length (history st')) - 1) \<and>
           nodes st' = nodes st \<and> edges st' = edges st \<and> notices st' = notices st"
proof -
  define h1 where "h1 = (if historyIndex st < int (length (history st)) - 1
                    then js_slice0 (history st) (historyIndex st + 1) else history st)"
  obtain k where k: "h1 = take k (history st)"
    unfolding h1_def js_slice0_def Let_def by (metis take_all order_refl)
  define s where "s = snap (nodes st, edges st)"
  have len: "hist_ok st \<Longrightarrow> int (length h1) = historyIndex st + 1"
    unfolding h1_def js_slice0_def Let_def hist_ok_def index_invariant_def
    by (auto simp: min_def max_def)
  have cap: "hist_ok st \<Longrightarrow> length h1 \<le> 50"
    unfolding h1_def js_slice0_def Let_def hist_ok_def maxHistory_def by auto
  show ?thesis
  proof (cases "int (length (h1 @ [s])) > maxHistory")
    case True
    define st' where "st' = st\<lparr>history := tl (h1 @ [s])\<rparr>"
    have ne: "h1 \<noteq> []" using True by (auto simp: maxHistory_def)
    have r: "saveToHistory st = Returned st'"
      using assms True
      by (simp add: saveToHistory_def json_clone_def Let_def h1_def s_def snap_def st'_def)
    have "history st' = drop 1 (take k (history st)) @ [snap (nodes st, edges st)]"
      using k ne by (simp add: st'_def s_def drop_Suc)
    then have h: "\<exists>k d. d \<le> 1 \<and>
        history st' = drop d (take k (history st)) @ [snap (nodes st, edges st)]"
      by (intro exI[of _ k] exI[of _ 1]) simp
    have i: "hist_ok st \<longrightarrow> historyIndex st' = int (length (history st')) - 1"
      using len True cap ne by (auto simp: st'_def maxHistory_def)
    have f: "nodes st' = nodes st \<and> edges st' = edges st \<and> notices st' = notices st"
      by (simp add: st'_def)
    show ?thesis by (intro exI[of _ st'] conjI r h i) (simp_all add: f)
  next
    case False
    define st' where "st' = st\<lparr>history := h1 @ [s], historyIndex := historyIndex st + 1\<rparr>"
    have r: "saveToHistory st = Returned st'"
      using assms False
      by (simp add: saveToHistory_def json_clone_def Let_def h1_def s_def snap_def st'_def)
    have "history st' = drop 0 (take k (history st)) @ [snap (nodes st, edges st)]"
      using k by (simp add: st'_def s_def)
    then have h: "\<exists>k d. d \<le> 1 \<and>
        history st' = drop d (take k (history st)) @ [snap (nodes st, edges st)]"
      by (intro exI[of _ k] exI[of _ 0]) simp
    have i: "hist_ok st \<longrightarrow> historyIndex st' = int (length (history st')) - 1"
      using len by (auto simp: st'_def)
    have f: "nodes st' = nodes st \<and> edges st' = edges st \<and> notices st' = notices st"
      by (simp add: st'_def)
    show ?thesis by (intro exI[of _ st'] conjI r h i) (simp_all add: f)
  qed
qed

section \<open>Local load\<close>


text \<open>
  The loads that leave the graph alone: the slot is missing or empty, the text does not
  parse, or it parses to \<^verbatim>\<open>null\<close>. Each is reported as a warning or an error and
  nothing but the notice log changes.
\<close>

lemma load_missing_or_unparsable:
  assumes "savedData = None \<or> savedData = Some [] \<or>
           (\<exists>text. savedData = Some text \<and> (\<exists>e. parse text = Inl e)) \<or>
           (\<exists>text. savedData = Some text \<and> parse text = Inr JNull)"
  shows "handleLoad parse savedData st = notify LWarning NoSavedData st \<or>
         handleLoad parse savedData st = notify LError LoadFailed st"
  using assms by (auto simp: handleLoad_def)

text \<open>
  Claim C3, at the slot content \<^verbatim>\<open>{}\<close>: the text parses, so \<^verbatim>\<open>nodes.value\<close> and
  \<^verbatim>\<open>edges.value\<close> are assigned the missing properties, \<open>saveToHistory\<close> then throws
  inside the \<^verbatim>\<open>try\<close> block, and the load is reported as failed with the graph already
  overwritten.
\<close>

theorem load_failure_overwrites_graph:
  "handleLoad (parse_table [(''{}'', JObj [])]) (Some ''{}'') sample =
     sample\<lparr>nodes := JUndefined, edges := JUndefined, notices := [(LError, LoadFailed)]\<rparr> \<and>
   nodes sample = JArr [n_start, n_task, n_end] \<and>
   edges sample = JArr [e_start_task, e_task_end]"
  by (simp add: handleLoad_def parse_table_def saveToHistory_def json_clone_def notify_def
      sample_def initial_def sync_def Let_def)

section \<open>Import\<close>


text \<open>The file \<^verbatim>\<open>null\<close> parses and has neither field; reading \<^verbatim>\<open>data.nodes\<close> throws,
  and the notice is the one of a parse failure.\<close>

lemma import_null_text:
  "handleFileChange (parse_table [(''null'', JNull)]) (Some ''null'') sample
   = sample\<lparr>notices := [(LError, ParseFailed)]\<rparr>"
  by (simp add: handleFileChange_def parse_table_def notify_def sample_def initial_def
      sync_def Let_def)



section \<open>Copy and paste\<close>

lemma n_dragged_from_palette:
  "onDragStart 1700000000000 timer_item 120 240 = Inr n_dragged"
  by (simp add: onDragStart_def timer_item_def n_dragged_def strict_eq_def js_or_def dec.simps)

text \<open>
  Claim C7 as stated fails: the identifier of the pasted node is the word \<^verbatim>\<open>node-\<close>
  followed by the time of the paste in milliseconds, and a node that got its identifier
  in that same millisecond has exactly this identifier. Here the node dragged in at
  1700000000000 is in the store, is copied, and is pasted at 1700000000000: the store
  takes the pasted node for the one it holds, so the list has one node as before and no
  node with another identifier.
\<close>

theorem paste_same_id_counterexample:
  "node_ids (store_nodes (state_of (handlePaste
       (add_table [((JNum 120, JNum 50), JNum 170), ((JNum 240, JNum 50), JNum 290)])
       1700000000000
       (state_of (handleCopy
          ((addNodes n_dragged (initial (JArr []) (JArr [])))\<lparr>selectedNode := n_dragged\<rparr>))))))
   = [JStr ''node-1700000000000''] \<and>
   node_ids (store_nodes (addNodes n_dragged (initial (JArr []) (JArr []))))
   = [JStr ''node-1700000000000'']"
  by (simp add: handlePaste_def handleCopy_def initial_def sync_def n_dragged_def
      json_clone_def notify_def pasted_node_def obj_assign_def addNodes_def saveToHistory_def
      add_table_def dec.simps Let_def maxHistory_def opt_prop_JObj node_ids_def store_node_def)

text \<open>
  Claim C7, amended. A node object with a non-empty string identifier, a position with
  numeric coordinates and a data payload is selected, and no node of the list has the
  identifier \<^verbatim>\<open>node-\<close> followed by \<open>now\<close>. Copy and then paste at time \<open>now\<close> both
  return. The node list has one more element, at the end. Its identifier is \<^verbatim>\<open>node-\<close>
  followed by \<open>now\<close>, so it differs from the source's when the source is a node of the
  list. Each coordinate of its position is what the host's addition gives for the
  source's coordinate and 50. Its data is the deep copy of the source's data, which is
  the data itself when that holds no \<^verbatim>\<open>undefined\<close> property, no \<open>NaN\<close> and no infinity.
  The clipboard holds the copy of the source after the paste as before it, and the
  pasted node is the selected one.
\<close>

theorem copy_paste_node:
  assumes "store_nodes st = ns"
    and "nodes st \<noteq> JUndefined" and "edges st \<noteq> JUndefined"
    and "selectedNode st = JObj sf"
    and "opt_prop (JObj sf) ''id'' = JStr i" and "i \<noteq> []"
    and "opt_prop (JObj sf) ''position'' = JObj pf"
    and "opt_prop (JObj pf) ''x'' = JNum px" and "opt_prop (JObj pf) ''y'' = JNum py"
    and "opt_prop (JObj sf) ''data'' = d" and "d \<noteq> JUndefined"
    and "JStr (''node-'' @ dec now) \<notin> set (node_ids ns)"
  shows "\<exists>st1 st2 n'.
           handleCopy st = Returned st1 \<and> handlePaste add now st1 = Returned st2 \<and>
           store_nodes st2 = ns @ [n'] \<and>
           opt_prop n' ''id'' = JStr (''node-'' @ dec now) \<and>
           (JStr i \<in> set (node_ids ns) \<longrightarrow> opt_prop n' ''id'' \<noteq> opt_prop (JObj sf) ''id'') \<and>
           opt_prop n' ''position'' =
             JObj [(''x'', add (JNum px) (JNum 50)), (''y'', add (JNum py) (JNum 50))] \<and>
           opt_prop n' ''data'' = jclone d \<and>
           (json_clean d \<longrightarrow> opt_prop n' ''data'' = d) \<and>
           clipboard st1 = jclone (JObj sf) \<and> clipboard st2 = clipboard st1 \<and>
           selectedNode st2 = n' \<and> updateState st2 = ''node''"
proof -
  let ?cf = "jclone_props sf"
  let ?id = "JStr (''node-'' @ dec now)"
  let ?pos = "JObj [(''x'', add (JNum px) (JNum 50)), (''y'', add (JNum py) (JNum 50))]"
  let ?new = "obj_assign ?cf [(''id'', ?id), (''position'', ?pos)]"
  define st1 where "st1 = notify LSuccess NodeCopied (st\<lparr>clipboard := JObj ?cf\<rparr>)"
  have m_id: "map_of sf ''id'' = Some (JStr i)"
    using assms(5) by (rule opt_prop_defined) simp
  have m_pos: "map_of sf ''position'' = Some (JObj pf)"
    using assms(7) by (rule opt_prop_defined) simp
  have m_x: "map_of pf ''x'' = Some (JNum px)"
    using assms(8) by (rule opt_prop_defined) simp
  have m_y: "map_of pf ''y'' = Some (JNum py)"
    using assms(9) by (rule opt_prop_defined) simp
  have m_d: "map_of sf ''data'' = Some d"
    using assms(10,11) by (rule opt_prop_defined)
  have copy: "handleCopy st = Returned st1"
    using assms(4,6) m_id by (simp add: handleCopy_def json_clone_def st1_def)
  have c_pos: "map_of ?cf ''position'' = Some (JObj (jclone_props pf))"
    using map_of_jclone_props[OF m_pos] by simp
  have c_x: "map_of (jclone_props pf) ''x'' = Some (JNum px)"
    using map_of_jclone_props[OF m_x] by simp
  have c_y: "map_of (jclone_props pf) ''y'' = Some (JNum py)"
    using map_of_jclone_props[OF m_y] by simp
  have c_d: "map_of ?cf ''data'' = Some (jclone d)"
    using map_of_jclone_props[OF m_d assms(11)] .
  have new: "pasted_node add now (JObj ?cf) = Inr (JObj ?new)"
    by (simp add: pasted_node_def c_pos c_x c_y)
  have n_id: "opt_prop (JObj ?new) ''id'' = ?id"
    by (simp add: opt_prop_JObj map_of_obj_assign)
  have n_pos: "opt_prop (JObj ?new) ''position'' = ?pos"
    by (simp add: opt_prop_JObj map_of_obj_assign)
  have n_d: "opt_prop (JObj ?new) ''data'' = jclone d"
    by (simp add: opt_prop_JObj map_of_obj_assign c_d)
  have stored: "store_node (JObj ?new) = JObj ?new"
    using n_d assms(11) by (simp add: store_node_def jclone_defined)
  have added: "addNodes (JObj ?new) st1 = st1\<lparr>store_nodes := ns @ [JObj ?new]\<rparr>"
    unfolding addNodes_def n_id stored using assms(1,12) by (simp add: st1_def notify_def)
  let ?s = "st1\<lparr>store_nodes := ns @ [JObj ?new], selectedNode := JObj ?new, updateState := ''node''\<rparr>"
  have "nodes ?s \<noteq> JUndefined" "edges ?s \<noteq> JUndefined"
    using assms(2,3) by (simp_all add: st1_def notify_def)
  from saveToHistory_returns[OF this] obtain s2 where s2all:
    "saveToHistory ?s = Returned s2 \<and> nodes s2 = nodes ?s \<and> edges s2 = edges ?s
      \<and> selectedNode s2 = selectedNode ?s \<and> selectedEdge s2 = selectedEdge ?s
      \<and> updateState s2 = updateState ?s \<and> clipboard s2 = clipboard ?s
      \<and> notices s2 = notices ?s
      \<and> store_nodes s2 = store_nodes ?s \<and> store_edges s2 = store_edges ?s"
    by (rule exE)
  define st2 where "st2 = notify LSuccess NodePasted s2"
  have clip: "clipboard st1 = JObj ?cf" by (simp add: st1_def notify_def)
  have s2: "saveToHistory ?s = Returned s2" using s2all by (rule conjunct1)
  have "handlePaste add now st1 =
        and_then (saveToHistory
                    ((addNodes (JObj ?new) st1)\<lparr>selectedNode := JObj ?new, updateState := ''node''\<rparr>))
          (\<lambda>s. Returned (notify LSuccess NodePasted s))"
    unfolding handlePaste_def clip new by simp
  also have "\<dots> = and_then (saveToHistory ?s) (\<lambda>s. Returned (notify LSuccess NodePasted s))"
    unfolding added by simp
  also have "\<dots> = Returned st2"
    unfolding s2 st2_def by simp
  finally have paste: "handlePaste add now st1 = Returned st2" .
  have frame: "store_nodes st2 = ns @ [JObj ?new]" "clipboard st1 = jclone (JObj sf)"
    "clipboard st2 = clipboard st1" "selectedNode st2 = JObj ?new" "updateState st2 = ''node''"
    using s2all by (simp_all add: st2_def st1_def notify_def)
  have differs: "JStr i \<in> set (node_ids ns) \<longrightarrow>
      opt_prop (JObj ?new) ''id'' \<noteq> opt_prop (JObj sf) ''id''"
    unfolding n_id assms(5) using assms(12) by auto
  have clean: "json_clean d \<longrightarrow> opt_prop (JObj ?new) ''data'' = d"
    unfolding n_d by (simp add: jclone_clean)
  show ?thesis
    by (intro exI[of _ st1] exI[of _ st2] exI[of _ "JObj ?new"] conjI
        copy paste frame n_id n_pos n_d differs clean)
qed

theorem copy_paste_node_witness:
  "\<exists>st1 st2 n'.
     handleCopy sample = Returned st1 \<and>
     handlePaste (add_table [((JNum 350, JNum 50), JNum 400), ((JNum 150, JNum 50), JNum 200)])
       1700000000001 st1 = Returned st2 \<and>
     store_nodes st2 = [n_start, n_task, n_end, n'] \<and>
     opt_prop n' ''id'' = JStr ''node-1700000000001'' \<and>
     opt_prop n' ''id'' \<noteq> opt_prop n_task ''id'' \<and>
     opt_prop n' ''position'' = JObj [(''x'', JNum 400), (''y'', JNum 200)] \<and>
     opt_prop n' ''data'' = opt_prop n_task ''data'' \<and>
     clipboard st2 = n_task"
proof -
  let ?add = "add_table [((JNum 350, JNum 50), JNum 400), ((JNum 150, JNum 50), JNum 200)]"
  let ?sf = "[(''id'', JStr ''task1''), (''type'', JStr ''task''),
              (''data'', JObj [(''label'', JStr ''Apply''), (''assignee'', JStr ''zhangsan''),
                               (''priority'', JStr ''high'')]),
              (''position'', JObj [(''x'', JNum 350), (''y'', JNum 150)])]"
  let ?pf = "[(''x'', JNum 350), (''y'', JNum 150)]"
  let ?d = "JObj [(''label'', JStr ''Apply''), (''assignee'', JStr ''zhangsan''),
                  (''priority'', JStr ''high'')]"
  have id: "''node-'' @ dec 1700000000001 = ''node-1700000000001''"
    by (simp add: dec.simps)
  have ids: "node_ids [n_start, n_task, n_end] = [JStr ''start'', JStr ''task1'', JStr ''end'']"
    by (simp add: node_ids_def sample_props)
  have h: "nodes sample \<noteq> JUndefined" "edges sample \<noteq> JUndefined"
    "selectedNode sample = JObj ?sf"
    "opt_prop (JObj ?sf) ''id'' = JStr ''task1''" "''task1'' \<noteq> []"
    "opt_prop (JObj ?sf) ''position'' = JObj ?pf"
    "opt_prop (JObj ?pf) ''x'' = JNum 350" "opt_prop (JObj ?pf) ''y'' = JNum 150"
    "opt_prop (JObj ?sf) ''data'' = ?d" "?d \<noteq> JUndefined"
    by (simp_all add: sample_fields n_task_def opt_prop_JObj)
  have fresh: "JStr (''node-'' @ dec 1700000000001) \<notin> set (node_ids [n_start, n_task, n_end])"
    unfolding id ids by simp
  have clean: "json_clean ?d" "jclone (JObj ?sf) = JObj ?sf" by simp_all
  have sums: "?add (JNum 350) (JNum 50) = JNum 400" "?add (JNum 150) (JNum 50) = JNum 200"
    by (simp_all add: add_table_def)
  from copy_paste_node [OF sample_fields(3) h fresh, of ?add]
  obtain st1 st2 n' where r:
    "handleCopy sample = Returned st1 \<and> handlePaste ?add 1700000000001 st1 = Returned st2 \<and>
     store_nodes st2 = [n_start, n_task, n_end] @ [n'] \<and>
     opt_prop n' ''id'' = JStr (''node-'' @ dec 1700000000001) \<and>
     (JStr ''task1'' \<in> set (node_ids [n_start, n_task, n_end]) \<longrightarrow>
        opt_prop n' ''id'' \<noteq> opt_prop (JObj ?sf) ''id'') \<and>
     opt_prop n' ''position'' =
       JObj [(''x'', ?add (JNum 350) (JNum 50)), (''y'', ?add (JNum 150) (JNum 50))] \<and>
     opt_prop n' ''data'' = jclone ?d \<and>
     (json_clean ?d \<longrightarrow> opt_prop n' ''data'' = ?d) \<and>
     clipboard st1 = jclone (JObj ?sf) \<and> clipboard st2 = clipboard st1 \<and>
     selectedNode st2 = n' \<and> updateState st2 = ''node''"
    by (elim exE) (rule that)
  have "handleCopy sample = Returned st1 \<and> handlePaste ?add 1700000000001 st1 = Returned st2 \<and>
     store_nodes st2 = [n_start, n_task, n_end, n'] \<and>
     opt_prop n' ''id'' = JStr ''node-1700000000001'' \<and>
     opt_prop n' ''id'' \<noteq> opt_prop n_task ''id'' \<and>
     opt_prop n' ''position'' = JObj [(''x'', JNum 400), (''y'', JNum 200)] \<and>
     opt_prop n' ''data'' = opt_prop n_task ''data'' \<and>
     clipboard st2 = n_task"
    using r clean unfolding id sums ids by (simp add: n_task_def opt_prop_JObj)
  then show ?thesis by (intro exI)
qed

section \<open>History: undo and redo\<close>

text \<open>
  What a record holds after a write to the store: \<open>saveToHistory\<close> reads the refs, and
  \<^verbatim>\<open>setNodes\<close> and \<^verbatim>\<open>setEdges\<close> leave them as they are, so the new last entry of the
  history is the snapshot of the graph of the refs, whatever lists were stored.
\<close>

lemma record_after_store_write:
  assumes "nodes st \<noteq> JUndefined" and "edges st \<noteq> JUndefined"
  shows "\<exists>st'. saveToHistory (setEdges es (setNodes ns st)) = Returned st' \<and>
           last (history st') = snap (nodes st, edges st) \<and>
           nodes st' = nodes st \<and> edges st' = edges st \<and>
           store_nodes st' = ns \<and> store_edges st' = es"
proof -
  let ?s = "setEdges es (setNodes ns st)"
  have f: "nodes ?s = nodes st" "edges ?s = edges st" "store_nodes ?s = ns" "store_edges ?s = es"
    by (simp_all add: setNodes_def setEdges_def)
  have d: "nodes ?s \<noteq> JUndefined" "edges ?s \<noteq> JUndefined" using assms f by simp_all
  from saveToHistory_appends[OF d] obtain st' where a:
    "saveToHistory ?s = Returned st' \<and>
     (\<exists>k d. d \<le> 1 \<and> history st' = drop d (take k (history ?s)) @ [snap (nodes ?s, edges ?s)]) \<and>
     (hist_ok ?s \<longrightarrow> historyIndex st' = int (length (history st')) - 1) \<and>
     nodes st' = nodes ?s \<and> edges st' = edges ?s \<and> notices st' = notices ?s"
    by (rule exE)
  from saveToHistory_returns[OF d] a have b:
    "store_nodes st' = store_nodes ?s" "store_edges st' = store_edges ?s"
    by auto
  from a obtain k d where "history st' = drop d (take k (history ?s)) @ [snap (nodes ?s, edges ?s)]"
    by (elim exE conjE)
  then have "last (history st') = snap (nodes st, edges st)" by (simp add: f)
  then show ?thesis using a b f by (intro exI[of _ st']) simp
qed

lemma sample_clean:
  "jclone (JArr [n_start, n_task, n_end]) = JArr [n_start, n_task, n_end]"
  "jclone (JArr [e_start_task, e_task_end]) = JArr [e_start_task, e_task_end]"
  by (rule jclone_clean(1), simp add: n_start_def n_task_def n_end_def e_start_task_def
      e_task_end_def)+

lemma after_delete_fields:
  "nodes after_delete = JArr [n_start, n_task, n_end]"
  "edges after_delete = JArr [e_start_task, e_task_end]"
  "store_nodes after_delete = [n_start, n_end]"
  "store_edges after_delete = []"
  "history after_delete =
     [snap (JArr [n_start, n_task, n_end], JArr [e_start_task, e_task_end]),
      snap (JArr [n_start, n_task, n_end], JArr [e_start_task, e_task_end])]"
  "historyIndex after_delete = 1"
  "notices after_delete = [(LSuccess, NodeDeleted)]"
proof -
  define g where "g = snap (JArr [n_start, n_task, n_end], JArr [e_start_task, e_task_end])"
  define s0 where "s0 = sample\<lparr>history := [g], historyIndex := 0\<rparr>"
  have r0: "saveToHistory sample = Returned s0"
    by (simp add: saveToHistory_def json_clone_def sample_fields Let_def maxHistory_def
        s0_def g_def snap_def)
  have f0: "store_nodes s0 = [n_start, n_task, n_end]" "store_edges s0 = [e_start_task, e_task_end]"
    "selectedNode s0 = n_task" "nodes s0 = JArr [n_start, n_task, n_end]"
    "edges s0 = JArr [e_start_task, e_task_end]" "history s0 = [g]" "historyIndex s0 = 0"
    "notices s0 = []"
    by (simp_all add: s0_def sample_fields)
  have sn: "selectedNode (setNodes [n_start, n_end] s0) = n_task"
    "store_edges (setNodes [n_start, n_end] s0) = [e_start_task, e_task_end]"
    by (simp_all add: setNodes_def f0)
  have a: "filter_js (id_differs n_task) [n_start, n_task, n_end] = Inr [n_start, n_end]"
    by (subst filter_js_total[where q = "\<lambda>n. opt_prop n ''id'' \<noteq> JStr ''task1''"])
       (auto simp: id_differs_str sample_objects sample_props)
  have b: "filter_js (avoids n_task) [e_start_task, e_task_end] = Inr []"
    by (subst filter_js_total[where q = "\<lambda>e. opt_prop e ''source'' \<noteq> JStr ''task1'' \<and>
                                              opt_prop e ''target'' \<noteq> JStr ''task1''"])
       (auto simp: avoids_str sample_objects sample_props)
  define s1 where "s1 = handleClosePanel (notify LSuccess NodeDeleted
                          (setEdges [] (setNodes [n_start, n_end] s0)))"
  have f1: "store_nodes s1 = [n_start, n_end]" "store_edges s1 = []"
    "nodes s1 = JArr [n_start, n_task, n_end]" "edges s1 = JArr [e_start_task, e_task_end]"
    "history s1 = [g]" "historyIndex s1 = 0" "notices s1 = [(LSuccess, NodeDeleted)]"
    by (simp_all add: s1_def handleClosePanel_def notify_def setNodes_def setEdges_def f0)
  have r1: "handleDeleteNode True s0 = saveToHistory s1"
    by (simp only: handleDeleteNode_def f0 a sum.case Let_def sn b s1_def simp_thms if_False)
  define s2 where "s2 = s1\<lparr>history := [g, g], historyIndex := 1\<rparr>"
  have r2: "saveToHistory s1 = Returned s2"
    by (simp add: saveToHistory_def json_clone_def f1 Let_def maxHistory_def s2_def g_def
        snap_def)
  have ad: "after_delete = s2"
    by (simp add: after_delete_def r0 r1 r2)
  show "nodes after_delete = JArr [n_start, n_task, n_end]"
    "edges after_delete = JArr [e_start_task, e_task_end]"
    "store_nodes after_delete = [n_start, n_end]"
    "store_edges after_delete = []"
    "history after_delete =
       [snap (JArr [n_start, n_task, n_end], JArr [e_start_task, e_task_end]),
        snap (JArr [n_start, n_task, n_end], JArr [e_start_task, e_task_end])]"
    "historyIndex after_delete = 1"
    "notices after_delete = [(LSuccess, NodeDeleted)]"
    unfolding ad s2_def by (simp_all add: f1 g_def)
qed

lemma sync_sample_graph:
  assumes "nodes st = JArr [n_start, n_task, n_end]"
    and "edges st = JArr [e_start_task, e_task_end]"
  shows "store_nodes (sync st) = [n_start, n_task, n_end]"
    and "store_edges (sync st) = [e_start_task, e_task_end]"
  using assms by (simp_all add: sync_def Let_def sample_stored node_ids_def sample_props)

text \<open>
  Claim C2, at one action. The sample graph is recorded, the selected task is deleted
  and the deletion recorded; then one undo and one redo follow. Before the undo the
  graph is the start node and the end node with no edge. The record of the deletion
  holds the graph of the refs, which the deletion has not changed, so both entries of
  the history are the full graph: after the undo and the redo the graph has the task
  and both edges again, and the deletion is lost.
\<close>

theorem undo_redo_loses_store_edit:
  "store_nodes after_delete = [n_start, n_end] \<and> store_edges after_delete = [] \<and>
   history after_delete =
     [snap (JArr [n_start, n_task, n_end], JArr [e_start_task, e_task_end]),
      snap (JArr [n_start, n_task, n_end], JArr [e_start_task, e_task_end])] \<and>
   historyIndex after_delete = 1 \<and>
   store_nodes after_undo_redo = [n_start, n_task, n_end] \<and>
   store_edges after_undo_redo = [e_start_task, e_task_end] \<and>
   historyIndex after_undo_redo = 1 \<and>
   map snd (notices after_undo_redo) = [NodeDeleted, UndoDone, RedoDone]"
proof -
  define g where "g = snap (JArr [n_start, n_task, n_end], JArr [e_start_task, e_task_end])"
  have g: "snap_nodes g = JArr [n_start, n_task, n_end]"
    "snap_edges g = JArr [e_start_task, e_task_end]"
    by (simp_all only: g_def snap_def fst_conv snd_conv sample_clean snapshot.simps)
  have gc: "json_clone (JArr [n_start, n_task, n_end]) = Inr (JArr [n_start, n_task, n_end])"
    "json_clone (JArr [e_start_task, e_task_end]) = Inr (JArr [e_start_task, e_task_end])"
    unfolding json_clone_def sample_clean by simp_all
  note d = after_delete_fields [folded g_def]
  note nd = d(7)
  define u where "u = state_of (undo after_delete)"
  have u: "nodes u = JArr [n_start, n_task, n_end]" "edges u = JArr [e_start_task, e_task_end]"
    "history u = [g, g]" "historyIndex u = 0"
    "notices u = [(LSuccess, NodeDeleted), (LSuccess, UndoDone)]"
    by (simp_all add: u_def undo_def restore_def js_index_def d g gc notify_def nd)
  define r where "r = state_of (redo (sync u))"
  have su: "history (sync u) = [g, g]" "historyIndex (sync u) = 0"
    "notices (sync u) = [(LSuccess, NodeDeleted), (LSuccess, UndoDone)]"
    by (simp_all add: sync_frame u)
  have r: "nodes r = JArr [n_start, n_task, n_end]" "edges r = JArr [e_start_task, e_task_end]"
    "historyIndex r = 1"
    "notices r = [(LSuccess, NodeDeleted), (LSuccess, UndoDone), (LSuccess, RedoDone)]"
    by (simp_all add: r_def redo_def restore_def js_index_def su g gc notify_def)
  have e: "after_undo_redo = sync r"
    by (simp add: after_undo_redo_def r_def u_def)
  have "store_nodes after_undo_redo = [n_start, n_task, n_end]"
    "store_edges after_undo_redo = [e_start_task, e_task_end]"
    unfolding e using r(1,2) by (rule sync_sample_graph)+
  moreover have "historyIndex after_undo_redo = 1"
    "map snd (notices after_undo_redo) = [NodeDeleted, UndoDone, RedoDone]"
    unfolding e by (simp_all add: sync_frame r)
  ultimately show ?thesis using after_delete_fields(3-6) by simp
qed

end
